theory Spec2Isabelle
  imports
    Main
    "HOL-Library.Char_ord"
    "HOL-Library.List_Lexorder"
    "HOL-Library.Product_Lexorder"
begin

section \<open>Values shared by the pipeline and the bot\<close>

text \<open>
  The Python exceptions the modelled code can meet. \<open>DatabaseError\<close> is psycopg2's,
  \<open>RequestException\<close> is the base class of everything \<open>requests.get\<close> and
  \<open>raise_for_status\<close> raise, \<open>DecodeError\<close> is protobuf's, \<open>ValueError\<close> and
  \<open>OverflowError\<close> come from \<open>datetime\<close>, \<open>AttributeError\<close> from reading
  \<open>.entity\<close> of \<open>None\<close>, \<open>IndexError\<close> from \<open>[0]\<close> on an empty list.
\<close>

datatype py_error =
    RequestException
  | DecodeError
  | ValueError
  | OverflowError
  | AttributeError
  | IndexError
  | DatabaseError

text \<open>
  A point in time (a Python \<open>datetime\<close>, a PostgreSQL \<open>TIMESTAMP\<close>), counted in
  microseconds (the resolution of \<open>TIMESTAMP\<close>) on one common time line. \<open>NOW()\<close>
  is a parameter of every query that reads it.
\<close>

type_synonym timestamp = int

section \<open>The storage engine (utils/db.py, mta\_data\_pipeline/create\_schema.py)\<close>

text \<open>
  Rows are the tuples the code writes and reads, in the column order of the
  \<open>insert_data\<close> calls. A nullable column is an \<open>option\<close>. The surrogate \<open>id\<close>
  columns of \<open>stop_time_update\<close>, \<open>alerts\<close>, \<open>active_periods\<close> and
  \<open>informed_entities\<close> and the column \<open>alerts.last_updated\<close> are filled by the
  engine and never named by any statement of the code; a table is the list of its rows in
  insertion order, so two rows that differ only in their surrogate id are two equal
  entries of the list.
\<close>

type_synonym stop_row = "string \<times> string option \<times> string option \<times> string option"
  \<comment> \<open>\<open>stop_id\<close> (primary key), \<open>stop_name\<close>, \<open>address\<close>, \<open>trains\<close>\<close>
type_synonym route_row = "string \<times> string option \<times> string option"
  \<comment> \<open>\<open>route_id\<close> (primary key), \<open>route_short_name\<close>, \<open>route_long_name\<close>\<close>
type_synonym trip_row = "string \<times> timestamp option \<times> string"
  \<comment> \<open>\<open>trip_id\<close> (primary key), \<open>start_datetime\<close>, \<open>route_id\<close>\<close>
type_synonym stu_row = "string \<times> string \<times> timestamp option \<times> timestamp option"
  \<comment> \<open>\<open>trip_id\<close>, \<open>stop_id\<close>, \<open>arrival_time\<close>, \<open>departure_time\<close>\<close>
type_synonym alert_row = "string \<times> string option \<times> string option"
  \<comment> \<open>\<open>alert_id\<close> (unique), \<open>header_text\<close>, \<open>description_text\<close>\<close>
type_synonym period_row = "string \<times> timestamp option \<times> timestamp option"
  \<comment> \<open>\<open>alert_id\<close>, \<open>start_time\<close>, \<open>end_time\<close>\<close>
type_synonym entity_row = "string \<times> string option \<times> string option \<times> string option"
  \<comment> \<open>\<open>alert_id\<close>, \<open>agency_id\<close>, \<open>route_id\<close>, \<open>stop_id\<close>\<close>
type_synonym user_row = "nat \<times> string"
  \<comment> \<open>\<open>user_id\<close> (serial), \<open>username\<close> (unique)\<close>
type_synonym subscription_row = "nat \<times> nat \<times> string option \<times> string option"
  \<comment> \<open>\<open>subscription_id\<close> (serial), \<open>user_id\<close>, \<open>stop_id\<close>, \<open>route_id\<close>\<close>

record database =
  stops :: "stop_row list"
  routes :: "route_row list"
  trips_real_time :: "trip_row list"
  stop_time_update :: "stu_row list"
  alerts :: "alert_row list"
  active_periods :: "period_row list"
  informed_entities :: "entity_row list"
  users :: "user_row list"
  subscriptions :: "subscription_row list"
  users_user_id_seq :: nat
  subscriptions_subscription_id_seq :: nat

definition empty_database :: database where
  "empty_database =
     \<lparr>stops = [], routes = [], trips_real_time = [], stop_time_update = [], alerts = [],
      active_periods = [], informed_entities = [], users = [], subscriptions = [],
      users_user_id_seq = 1, subscriptions_subscription_id_seq = 1\<rparr>"

text \<open>
  \<open>Database.execute_sql_query\<close>: one statement, one transaction. The engine either
  runs the statement and commits it, or raises a \<open>DatabaseError\<close> (a constraint
  violation, a lost connection); then the statement is rolled back, so the caller still
  holds the database as it was, and the error is raised again. Whether the engine fails
  is not decided by the code: it is the flag \<open>fault\<close>.
\<close>

definition execute_sql_query :: "bool \<Rightarrow> (database \<Rightarrow> 'a) \<Rightarrow> database \<Rightarrow> py_error + 'a" where
  "execute_sql_query fault statement db =
     (if fault then Inl DatabaseError else Inr (statement db))"

text \<open>
  A script issues its statements one after the other; the list \<open>faults\<close> says, for
  the statements in the order they are issued, which of them the engine fails. Past the
  end of the list no statement fails.
\<close>

definition fault_at :: "bool list \<Rightarrow> nat \<Rightarrow> bool" where
  "fault_at faults n = (n < length faults \<and> faults ! n)"

text \<open>
  \<open>Database.insert_data\<close> runs \<open>INSERT ... ON CONFLICT DO NOTHING\<close> once per row of
  \<open>values\<close> (\<open>executemany\<close>), all in one transaction. A row whose unique key is
  already in the table (put there before, or by an earlier row of the same batch) is
  skipped. A table with no unique constraint but its serial id takes every row.
\<close>

fun insert_on_conflict_do_nothing :: "('r \<Rightarrow> 'k) \<Rightarrow> 'r list \<Rightarrow> 'r list \<Rightarrow> 'r list" where
  "insert_on_conflict_do_nothing key table [] = table"
| "insert_on_conflict_do_nothing key table (r # rs) =
     insert_on_conflict_do_nothing key
       (if key r \<in> set (map key table) then table else table @ [r]) rs"

definition trip_id_of :: "trip_row \<Rightarrow> string" where
  "trip_id_of r = fst r"

definition trip_stop_of :: "stu_row \<Rightarrow> string \<times> string" where
  "trip_stop_of r = (fst r, fst (snd r))"

section \<open>The realtime reconciliation (upload\_real\_time\_feed\_to\_postgres.py)\<close>

text \<open>
  Lines 39 to 63 of the script: delete all rows of \<open>trips_real_time\<close>, delete all rows
  of \<open>stop_time_update\<close>, insert the trip updates unless the list is empty, insert the
  stop-time updates unless the list is empty. No statement is guarded by a \<open>try\<close>: the
  first \<open>DatabaseError\<close> ends the script. The result is the uncaught exception, if any,
  and the database the script leaves behind.
\<close>

definition realtime_reconciliation ::
  "bool list \<Rightarrow> trip_row list \<Rightarrow> stu_row list \<Rightarrow> database \<Rightarrow> py_error option \<times> database" where
  "realtime_reconciliation faults trip_updates stop_time_updates db =
     (case execute_sql_query (fault_at faults 0) (\<lambda>d. d\<lparr>trips_real_time := []\<rparr>) db of
        Inl e \<Rightarrow> (Some e, db)
      | Inr db1 \<Rightarrow>
     (case execute_sql_query (fault_at faults 1) (\<lambda>d. d\<lparr>stop_time_update := []\<rparr>) db1 of
        Inl e \<Rightarrow> (Some e, db1)
      | Inr db2 \<Rightarrow>
     (case (if trip_updates \<noteq> []
            then execute_sql_query (fault_at faults 2)
                   (\<lambda>d. d\<lparr>trips_real_time :=
                      insert_on_conflict_do_nothing trip_id_of (trips_real_time d) trip_updates\<rparr>) db2
            else Inr db2) of
        Inl e \<Rightarrow> (Some e, db2)
      | Inr db3 \<Rightarrow>
     (case (if stop_time_updates \<noteq> []
            then execute_sql_query (fault_at faults (if trip_updates \<noteq> [] then 3 else 2))
                   (\<lambda>d. d\<lparr>stop_time_update := stop_time_update d @ stop_time_updates\<rparr>) db3
            else Inr db3) of
        Inl e \<Rightarrow> (Some e, db3)
      | Inr db4 \<Rightarrow> (None, db4)))))"

section \<open>The alert reconciliation (upload\_alerts\_feed\_to\_postgres.py)\<close>

text \<open>The statements the loop body issues, each as the change it makes when it commits.\<close>

definition select_alert_id :: "string \<Rightarrow> database \<Rightarrow> string list" where
  \<comment> \<open>\<open>SELECT alert_id FROM alerts WHERE alert_id = %s\<close>\<close>
  "select_alert_id aid d = filter (\<lambda>i. i = aid) (map fst (alerts d))"

definition update_alert :: "string \<Rightarrow> string option \<Rightarrow> string option \<Rightarrow> database \<Rightarrow> database" where
  \<comment> \<open>\<open>UPDATE alerts SET header_text = .., description_text = .. WHERE alert_id = ..\<close>\<close>
  "update_alert aid header description d =
     d\<lparr>alerts := map (\<lambda>r. if fst r = aid then (aid, header, description) else r) (alerts d)\<rparr>"

definition insert_alert :: "string \<Rightarrow> string option \<Rightarrow> string option \<Rightarrow> database \<Rightarrow> database" where
  \<comment> \<open>\<open>alerts.alert_id\<close> is \<open>UNIQUE\<close>\<close>
  "insert_alert aid header description d =
     d\<lparr>alerts := insert_on_conflict_do_nothing fst (alerts d) [(aid, header, description)]\<rparr>"

definition delete_active_periods :: "string \<Rightarrow> database \<Rightarrow> database" where
  \<comment> \<open>\<open>DELETE FROM active_periods WHERE alert_id = ..\<close>\<close>
  "delete_active_periods aid d =
     d\<lparr>active_periods := filter (\<lambda>r. fst r \<noteq> aid) (active_periods d)\<rparr>"

definition insert_active_periods :: "period_row list \<Rightarrow> database \<Rightarrow> database" where
  "insert_active_periods rows d = d\<lparr>active_periods := active_periods d @ rows\<rparr>"

definition delete_informed_entities :: "string \<Rightarrow> database \<Rightarrow> database" where
  \<comment> \<open>\<open>DELETE FROM informed_entities WHERE alert_id = ..\<close>\<close>
  "delete_informed_entities aid d =
     d\<lparr>informed_entities := filter (\<lambda>r. fst r \<noteq> aid) (informed_entities d)\<rparr>"

definition insert_informed_entities :: "entity_row list \<Rightarrow> database \<Rightarrow> database" where
  "insert_informed_entities rows d = d\<lparr>informed_entities := informed_entities d @ rows\<rparr>"

text \<open>The dictionary the decoder builds for one alert, and the script reads.\<close>

record alert_dict =
  alert_id :: string
  header_text :: "string option"
  description_text :: "string option"
  alert_active_periods :: "(timestamp option \<times> timestamp option) list"
  alert_informed_entities :: "(string option \<times> string option \<times> string option) list"

definition active_period_rows :: "alert_dict \<Rightarrow> period_row list" where
  "active_period_rows a =
     map (\<lambda>(ap_start, ap_end). (alert_id a, ap_start, ap_end)) (alert_active_periods a)"

definition informed_entity_rows :: "alert_dict \<Rightarrow> entity_row list" where
  "informed_entity_rows a =
     map (\<lambda>(agency, route, stop). (alert_id a, agency, route, stop))
       (alert_informed_entities a)"

text \<open>
  Lines 25 to 54, the body of \<open>for alert in alerts\<close>: select the alert; update it when
  the select returned a row, insert it otherwise; delete its active periods and insert
  the new ones unless there are none; delete its informed entities and insert the new
  ones unless there are none. \<open>n\<close> is the number of statements issued before. The result
  is the exception that ended the body, if any, the database at that moment, and the
  number of statements issued so far.
\<close>

definition reconcile_alert ::
  "bool list \<Rightarrow> nat \<Rightarrow> alert_dict \<Rightarrow> database \<Rightarrow> py_error option \<times> database \<times> nat" where
  "reconcile_alert faults n a db =
     (case execute_sql_query (fault_at faults n) (select_alert_id (alert_id a)) db of
        Inl e \<Rightarrow> (Some e, db, n + 1)
      | Inr existing_alert \<Rightarrow>
     (case execute_sql_query (fault_at faults (n + 1))
             (if existing_alert \<noteq> []
              then update_alert (alert_id a) (header_text a) (description_text a)
              else insert_alert (alert_id a) (header_text a) (description_text a)) db of
        Inl e \<Rightarrow> (Some e, db, n + 2)
      | Inr db1 \<Rightarrow>
     (case execute_sql_query (fault_at faults (n + 2)) (delete_active_periods (alert_id a)) db1 of
        Inl e \<Rightarrow> (Some e, db1, n + 3)
      | Inr db2 \<Rightarrow>
     (case (if active_period_rows a \<noteq> []
            then execute_sql_query (fault_at faults (n + 3))
                   (insert_active_periods (active_period_rows a)) db2
            else Inr db2) of
        Inl e \<Rightarrow> (Some e, db2, n + 4)
      | Inr db3 \<Rightarrow>
     (let m = (if active_period_rows a \<noteq> [] then n + 4 else n + 3) in
     (case execute_sql_query (fault_at faults m) (delete_informed_entities (alert_id a)) db3 of
        Inl e \<Rightarrow> (Some e, db3, m + 1)
      | Inr db4 \<Rightarrow>
     (case (if informed_entity_rows a \<noteq> []
            then execute_sql_query (fault_at faults (m + 1))
                   (insert_informed_entities (informed_entity_rows a)) db4
            else Inr db4) of
        Inl e \<Rightarrow> (Some e, db4, m + 2)
      | Inr db5 \<Rightarrow>
          (None, db5, (if informed_entity_rows a \<noteq> [] then m + 2 else m + 1)))))))))"

text \<open>
  The loop stands in \<open>try ... except Exception\<close>: the first exception ends the loop and
  is logged, and the script ends normally. The result is the logged exception, if any,
  and the database the script leaves behind.
\<close>

fun reconcile_alerts ::
  "bool list \<Rightarrow> nat \<Rightarrow> alert_dict list \<Rightarrow> database \<Rightarrow> py_error option \<times> database" where
  "reconcile_alerts faults n [] db = (None, db)"
| "reconcile_alerts faults n (a # rest) db =
     (case reconcile_alert faults n a db of
        (Some e, db', n') \<Rightarrow> (Some e, db')
      | (None, db', n') \<Rightarrow> reconcile_alerts faults n' rest db')"

definition alert_reconciliation ::
  "bool list \<Rightarrow> alert_dict list \<Rightarrow> database \<Rightarrow> py_error option \<times> database" where
  "alert_reconciliation faults alert_list db = reconcile_alerts faults 0 alert_list db"

text \<open>What the store holds for one alert id.\<close>

definition stored_alert :: "database \<Rightarrow> string \<Rightarrow> alert_row list" where
  "stored_alert d aid = filter (\<lambda>r. fst r = aid) (alerts d)"

definition stored_periods :: "database \<Rightarrow> string \<Rightarrow> (timestamp option \<times> timestamp option) list" where
  "stored_periods d aid = map snd (filter (\<lambda>r. fst r = aid) (active_periods d))"

definition stored_entities ::
  "database \<Rightarrow> string \<Rightarrow> (string option \<times> string option \<times> string option) list" where
  "stored_entities d aid = map snd (filter (\<lambda>r. fst r = aid) (informed_entities d))"

text \<open>The steps of the loop body, for the proofs: the database after each of them.\<close>

definition upsert_alert :: "alert_dict \<Rightarrow> database \<Rightarrow> database" where
  "upsert_alert a d =
     (if select_alert_id (alert_id a) d \<noteq> []
      then update_alert (alert_id a) (header_text a) (description_text a) d
      else insert_alert (alert_id a) (header_text a) (description_text a) d)"

definition put_active_periods :: "alert_dict \<Rightarrow> database \<Rightarrow> database" where
  "put_active_periods a d =
     (if active_period_rows a \<noteq> [] then insert_active_periods (active_period_rows a) d else d)"

definition put_informed_entities :: "alert_dict \<Rightarrow> database \<Rightarrow> database" where
  "put_informed_entities a d =
     (if informed_entity_rows a \<noteq> [] then insert_informed_entities (informed_entity_rows a) d
      else d)"

section \<open>The feed decoder (utils/helpers.py, process\_gtfs\_feed\_data)\<close>

text \<open>
  The parts of a GTFS-Realtime \<open>FeedMessage\<close> the decoder reads. A string field of a
  protobuf message reads as the empty string when it is absent, and the decoder reads the
  trip descriptor only through these values. A sub-message or scalar the decoder tests
  with \<open>HasField\<close> is an \<open>option\<close>: \<open>arrival\<close> and \<open>departure\<close> are the
  \<open>time\<close> of the sub-message when it is there, \<open>period_start\<close> and \<open>period_end\<close>
  the \<open>start\<close> and \<open>end\<close> of an active period. \<open>stop_time_update_list\<close> is the
  repeated field \<open>stop_time_update\<close>; a translated text is the list of the texts of
  its translations.
\<close>

record trip_descriptor =
  trip_id :: string
  start_time :: string
  start_date :: string
  route_id :: string

record stop_time_update_msg =
  stop_id :: string
  arrival :: "int option"
  departure :: "int option"

record trip_update_msg =
  trip :: trip_descriptor
  stop_time_update_list :: "stop_time_update_msg list"

record time_range =
  period_start :: "int option"
  period_end :: "int option"

record entity_selector =
  selector_agency_id :: "string option"
  selector_route_id :: "string option"
  selector_stop_id :: "string option"

record alert_msg =
  header_text_translation :: "string list"
  description_text_translation :: "string list"
  active_period :: "time_range list"
  informed_entity :: "entity_selector list"

record feed_entity =
  entity_id :: string
  trip_update :: "trip_update_msg option"
  alert :: "alert_msg option"

type_synonym feed_message = "feed_entity list"

type_synonym decoded = "trip_row list \<times> stu_row list \<times> alert_dict list"

text \<open>
  \<open>datetime.strptime(_, '%Y%m%d %H:%M:%S')\<close> and \<open>datetime.fromtimestamp\<close> belong to
  Python's library; both raise on input they reject. The decoder is modelled for any
  such pair of functions: \<open>strptime\<close> and \<open>fromtimestamp\<close> are parameters.
\<close>

definition optional_time ::
  "(int \<Rightarrow> py_error + timestamp) \<Rightarrow> int option \<Rightarrow> py_error + timestamp option" where
  "optional_time fromtimestamp field =
     (case field of
        None \<Rightarrow> Inr None
      | Some t \<Rightarrow> (case fromtimestamp t of Inl e \<Rightarrow> Inl e | Inr d \<Rightarrow> Inr (Some d)))"

text \<open>Lines 200 to 203: the start timestamp of a trip.\<close>

definition start_datetime_of ::
  "(string \<Rightarrow> py_error + timestamp) \<Rightarrow> trip_descriptor \<Rightarrow> py_error + timestamp option" where
  "start_datetime_of strptime td =
     (if start_time td \<noteq> [] \<and> start_date td \<noteq> []
      then (case strptime (start_date td @ '' '' @ start_time td) of
              Inl e \<Rightarrow> Inl e
            | Inr d \<Rightarrow> Inr (Some d))
      else Inr None)"

text \<open>
  Lines 207 to 211: the loop over the stop-time updates of one trip. Every function of
  the decoder returns the exception that ended it, if any, and the lists as they are at
  that moment: what was appended before an exception stays appended.
\<close>

fun decode_stop_times ::
  "(int \<Rightarrow> py_error + timestamp) \<Rightarrow> string \<Rightarrow> stop_time_update_msg list \<Rightarrow> stu_row list
     \<Rightarrow> py_error option \<times> stu_row list" where
  "decode_stop_times fromtimestamp tid [] stus = (None, stus)"
| "decode_stop_times fromtimestamp tid (st # sts) stus =
     (case optional_time fromtimestamp (arrival st) of
        Inl e \<Rightarrow> (Some e, stus)
      | Inr arrival_time \<Rightarrow>
     (case optional_time fromtimestamp (departure st) of
        Inl e \<Rightarrow> (Some e, stus)
      | Inr departure_time \<Rightarrow>
          decode_stop_times fromtimestamp tid sts
            (stus @ [(tid, stop_id st, arrival_time, departure_time)])))"

text \<open>Lines 194 to 211: an entity that has a trip update.\<close>

definition decode_trip_update ::
  "(string \<Rightarrow> py_error + timestamp) \<Rightarrow> (int \<Rightarrow> py_error + timestamp) \<Rightarrow> trip_update_msg
     \<Rightarrow> decoded \<Rightarrow> py_error option \<times> decoded" where
  "decode_trip_update strptime fromtimestamp tu acc =
     (case acc of (trip_updates, stus, alert_list) \<Rightarrow>
     (case start_datetime_of strptime (trip tu) of
        Inl e \<Rightarrow> (Some e, acc)
      | Inr start_datetime \<Rightarrow>
          (let trip_updates' =
                 trip_updates @ [(trip_id (trip tu), start_datetime, route_id (trip tu))];
               (raised, stus') =
                 decode_stop_times fromtimestamp (trip_id (trip tu)) (stop_time_update_list tu) stus
           in (raised, (trip_updates', stus', alert_list)))))"

text \<open>Lines 218 to 222: the list comprehension over the active periods of an alert.\<close>

fun decode_active_periods ::
  "(int \<Rightarrow> py_error + timestamp) \<Rightarrow> time_range list
     \<Rightarrow> py_error + (timestamp option \<times> timestamp option) list" where
  "decode_active_periods fromtimestamp [] = Inr []"
| "decode_active_periods fromtimestamp (p # ps) =
     (case optional_time fromtimestamp (period_start p) of
        Inl e \<Rightarrow> Inl e
      | Inr s \<Rightarrow>
     (case optional_time fromtimestamp (period_end p) of
        Inl e \<Rightarrow> Inl e
      | Inr t \<Rightarrow>
     (case decode_active_periods fromtimestamp ps of
        Inl e \<Rightarrow> Inl e
      | Inr rest \<Rightarrow> Inr ((s, t) # rest))))"

definition first_translation :: "string list \<Rightarrow> string option" where
  "first_translation translation = (case translation of [] \<Rightarrow> None | t # _ \<Rightarrow> Some t)"

text \<open>Lines 213 to 237: an entity that has an alert.\<close>

definition decode_alert ::
  "(int \<Rightarrow> py_error + timestamp) \<Rightarrow> string \<Rightarrow> alert_msg \<Rightarrow> decoded \<Rightarrow> py_error option \<times> decoded" where
  "decode_alert fromtimestamp eid a acc =
     (case acc of (trip_updates, stus, alert_list) \<Rightarrow>
     (case decode_active_periods fromtimestamp (active_period a) of
        Inl e \<Rightarrow> (Some e, acc)
      | Inr periods \<Rightarrow>
          (None,
           (trip_updates, stus,
            alert_list @
              [\<lparr>alert_id = eid,
                header_text = first_translation (header_text_translation a),
                description_text = first_translation (description_text_translation a),
                alert_active_periods = periods,
                alert_informed_entities =
                  map (\<lambda>s. (selector_agency_id s, selector_route_id s, selector_stop_id s))
                    (informed_entity a)\<rparr>]))))"

text \<open>The body of the inner loop: the two \<open>if entity.HasField(...)\<close>, one after the other.\<close>

definition decode_entity ::
  "(string \<Rightarrow> py_error + timestamp) \<Rightarrow> (int \<Rightarrow> py_error + timestamp) \<Rightarrow> feed_entity
     \<Rightarrow> decoded \<Rightarrow> py_error option \<times> decoded" where
  "decode_entity strptime fromtimestamp entity acc =
     (case (case trip_update entity of
              None \<Rightarrow> (None, acc)
            | Some tu \<Rightarrow> decode_trip_update strptime fromtimestamp tu acc) of
        (Some e, acc') \<Rightarrow> (Some e, acc')
      | (None, acc') \<Rightarrow>
          (case alert entity of
             None \<Rightarrow> (None, acc')
           | Some a \<Rightarrow> decode_alert fromtimestamp (entity_id entity) a acc'))"

fun decode_entities ::
  "(string \<Rightarrow> py_error + timestamp) \<Rightarrow> (int \<Rightarrow> py_error + timestamp) \<Rightarrow> feed_entity list
     \<Rightarrow> decoded \<Rightarrow> py_error option \<times> decoded" where
  "decode_entities strptime fromtimestamp [] acc = (None, acc)"
| "decode_entities strptime fromtimestamp (entity # rest) acc =
     (case decode_entity strptime fromtimestamp entity acc of
        (Some e, acc') \<Rightarrow> (Some e, acc')
      | (None, acc') \<Rightarrow> decode_entities strptime fromtimestamp rest acc')"

text \<open>
  The outer loop. An element of \<open>feed_list\<close> is a feed message or \<open>None\<close> (the alert
  script passes on whatever the fetch returned); reading \<open>.entity\<close> of \<open>None\<close> raises.
\<close>

fun decode_feeds ::
  "(string \<Rightarrow> py_error + timestamp) \<Rightarrow> (int \<Rightarrow> py_error + timestamp)
     \<Rightarrow> feed_message option list \<Rightarrow> decoded \<Rightarrow> py_error option \<times> decoded" where
  "decode_feeds strptime fromtimestamp [] acc = (None, acc)"
| "decode_feeds strptime fromtimestamp (feed # rest) acc =
     (case feed of
        None \<Rightarrow> (Some AttributeError, acc)
      | Some entities \<Rightarrow>
          (case decode_entities strptime fromtimestamp entities acc of
             (Some e, acc') \<Rightarrow> (Some e, acc')
           | (None, acc') \<Rightarrow> decode_feeds strptime fromtimestamp rest acc'))"

text \<open>
  \<open>process_gtfs_feed_data\<close>: one \<open>try\<close> around both loops, \<open>except Exception\<close> logs
  the error, and the three lists are returned as they are. \<open>process_gtfs_feed_data_logged\<close>
  is the error that was written to the log, if any.
\<close>

definition process_gtfs_feed_data ::
  "(string \<Rightarrow> py_error + timestamp) \<Rightarrow> (int \<Rightarrow> py_error + timestamp)
     \<Rightarrow> feed_message option list \<Rightarrow> decoded" where
  "process_gtfs_feed_data strptime fromtimestamp feed_list =
     snd (decode_feeds strptime fromtimestamp feed_list ([], [], []))"

definition process_gtfs_feed_data_logged ::
  "(string \<Rightarrow> py_error + timestamp) \<Rightarrow> (int \<Rightarrow> py_error + timestamp)
     \<Rightarrow> feed_message option list \<Rightarrow> py_error option" where
  "process_gtfs_feed_data_logged strptime fromtimestamp feed_list =
     fst (decode_feeds strptime fromtimestamp feed_list ([], [], []))"

text \<open>For the proofs: the three lists only grow.\<close>

definition grows :: "decoded \<Rightarrow> decoded \<Rightarrow> bool" where
  "grows acc acc' =
     (\<exists>ts ss al. acc' = (fst acc @ ts, fst (snd acc) @ ss, snd (snd acc) @ al))"

text \<open>
  The trip updates of the input, in the order the loops visit them, and what it means
  for a trip row to carry the start timestamp of a trip update: the ids are the trip
  descriptor's, the timestamp is not null exactly when start date and start time are
  both there, and then it is what \<open>strptime\<close> makes of the date, a blank and the time.
\<close>

definition entity_trip_updates :: "feed_entity \<Rightarrow> trip_update_msg list" where
  "entity_trip_updates entity = (case trip_update entity of None \<Rightarrow> [] | Some tu \<Rightarrow> [tu])"

definition feed_trip_updates :: "feed_message option list \<Rightarrow> trip_update_msg list" where
  "feed_trip_updates feed_list =
     concat (map (\<lambda>feed. case feed of None \<Rightarrow> []
                          | Some entities \<Rightarrow> concat (map entity_trip_updates entities))
               feed_list)"

definition start_matches ::
  "(string \<Rightarrow> py_error + timestamp) \<Rightarrow> trip_row \<Rightarrow> trip_update_msg \<Rightarrow> bool" where
  "start_matches sp row tu =
     (fst row = trip_id (trip tu) \<and> snd (snd row) = route_id (trip tu) \<and>
      (case fst (snd row) of
         None \<Rightarrow> start_time (trip tu) = [] \<or> start_date (trip tu) = []
       | Some d \<Rightarrow> start_time (trip tu) \<noteq> [] \<and> start_date (trip tu) \<noteq> [] \<and>
           sp (start_date (trip tu) @ '' '' @ start_time (trip tu)) = Inr d))"

text \<open>
  For the proofs: the row the decoder appends for a trip update, and the trip rows after
  a loop that started with the rows \<open>before\<close>: the rows of the trip updates reached,
  all of them when no exception ended the loop.
\<close>

definition expected_trip_row ::
  "(string \<Rightarrow> py_error + timestamp) \<Rightarrow> trip_update_msg \<Rightarrow> trip_row" where
  "expected_trip_row sp tu =
     (trip_id (trip tu),
      (case start_datetime_of sp (trip tu) of Inl e \<Rightarrow> None | Inr sd \<Rightarrow> sd),
      route_id (trip tu))"

definition reached ::
  "(string \<Rightarrow> py_error + timestamp) \<Rightarrow> trip_update_msg list \<Rightarrow> py_error option \<Rightarrow> trip_row list
     \<Rightarrow> trip_row list \<Rightarrow> bool" where
  "reached sp tus r before after =
     (\<exists>pre post. tus = pre @ post \<and> after = before @ map (expected_trip_row sp) pre \<and>
        (\<forall>tu \<in> set pre. \<exists>sd. start_datetime_of sp (trip tu) = Inr sd) \<and>
        (r = None \<longrightarrow> post = []))"

section \<open>The feed fetcher (utils/helpers.py, fetch\_gtfs\_realtime\_data)\<close>

text \<open>
  What \<open>requests.get\<close> does for a URL is the network's: it raises (a connection error,
  a timeout: subclasses of \<open>RequestException\<close>) or returns a response with a status code
  and a body. \<open>ParseFromString\<close> is protobuf's: it fills the message or raises
  \<open>DecodeError\<close>, which is not a \<open>RequestException\<close>. Both are parameters.
\<close>

datatype http_result = Request_failed | Response nat string

text \<open>
  \<open>raise_for_status\<close> raises \<open>HTTPError\<close>, a \<open>RequestException\<close>, for the status
  codes 400 to 599. The only \<open>except\<close> clause is \<open>except RequestException\<close>: it logs
  and returns \<open>None\<close>. Any other exception leaves the function.
\<close>

definition fetch_gtfs_realtime_data ::
  "(string \<Rightarrow> http_result) \<Rightarrow> (string \<Rightarrow> feed_message option) \<Rightarrow> string
     \<Rightarrow> py_error + feed_message option" where
  "fetch_gtfs_realtime_data requests_get ParseFromString gtfs_url =
     (case requests_get gtfs_url of
        Request_failed \<Rightarrow> Inr None
      | Response status_code content \<Rightarrow>
          (if 400 \<le> status_code \<and> status_code < 600 then Inr None
           else (case ParseFromString content of
                   None \<Rightarrow> Inl DecodeError
                 | Some feed \<Rightarrow> Inr (Some feed))))"

definition urls :: "(string \<times> string) list" where
  "urls =
     [(''NQRW'', ''https://api-endpoint.mta.info/Dataservice/mtagtfsfeeds/nyct%2Fgtfs-nqrw''),
      (''ACE'', ''https://api-endpoint.mta.info/Dataservice/mtagtfsfeeds/nyct%2Fgtfs-ace''),
      (''G'', ''https://api-endpoint.mta.info/Dataservice/mtagtfsfeeds/nyct%2Fgtfs-g''),
      (''one_to_seven'', ''https://api-endpoint.mta.info/Dataservice/mtagtfsfeeds/nyct%2Fgtfs''),
      (''BDFM'', ''https://api-endpoint.mta.info/Dataservice/mtagtfsfeeds/nyct%2Fgtfs-bdfm''),
      (''JZ'', ''https://api-endpoint.mta.info/Dataservice/mtagtfsfeeds/nyct%2Fgtfs-jz''),
      (''L'', ''https://api-endpoint.mta.info/Dataservice/mtagtfsfeeds/nyct%2Fgtfs-l''),
      (''SIR'', ''https://api-endpoint.mta.info/Dataservice/mtagtfsfeeds/nyct%2Fgtfs-si'')]"

text \<open>
  The fetch loop of upload\_real\_time\_feed\_to\_postgres.py, lines 28 to 34. The call of
  \<open>fetch_gtfs_realtime_data\<close> stands in no \<open>try\<close>: an exception that leaves it ends
  the loop and the script. A feed message object is always true in \<open>if feed\<close>.
\<close>

fun fetch_feed_list ::
  "(string \<Rightarrow> http_result) \<Rightarrow> (string \<Rightarrow> feed_message option) \<Rightarrow> (string \<times> string) list
     \<Rightarrow> feed_message list \<Rightarrow> py_error + feed_message list" where
  "fetch_feed_list requests_get ParseFromString [] feed_list = Inr feed_list"
| "fetch_feed_list requests_get ParseFromString ((key, url) # rest) feed_list =
     (case fetch_gtfs_realtime_data requests_get ParseFromString url of
        Inl e \<Rightarrow> Inl e
      | Inr None \<Rightarrow> fetch_feed_list requests_get ParseFromString rest feed_list
      | Inr (Some feed) \<Rightarrow>
          fetch_feed_list requests_get ParseFromString rest (feed_list @ [feed]))"

section \<open>The queries of the bot (utils/bot\_queries.py)\<close>

text \<open>
  SQL's three-valued logic, as far as the queries use it: a comparison with \<open>NULL\<close> is
  not true, so a \<open>WHERE\<close> or \<open>ON\<close> condition drops the row and a \<open>CASE WHEN\<close> goes
  on to the next branch.
\<close>

definition sql_eq :: "'a option \<Rightarrow> 'a option \<Rightarrow> bool" where
  "sql_eq a b = (case (a, b) of (Some x, Some y) \<Rightarrow> x = y | _ \<Rightarrow> False)"

definition sql_gt :: "timestamp option \<Rightarrow> timestamp \<Rightarrow> bool" where
  "sql_gt a t = (case a of Some x \<Rightarrow> t < x | None \<Rightarrow> False)"

definition sql_lt :: "timestamp option \<Rightarrow> timestamp \<Rightarrow> bool" where
  "sql_lt a t = (case a of Some x \<Rightarrow> x < t | None \<Rightarrow> False)"

definition coalesce :: "'a option \<Rightarrow> 'a option \<Rightarrow> 'a option" where
  "coalesce a b = (case a of Some x \<Rightarrow> Some x | None \<Rightarrow> b)"

text \<open>
  \<open>ORDER BY\<close> a nullable column, ascending: \<open>NULL\<close> comes last. Text is compared
  character by character, as the linear order on \<open>string\<close> does.
\<close>

definition nulls_last :: "'a option \<Rightarrow> 'a \<Rightarrow> bool \<times> 'a" where
  "nulls_last a dummy = (case a of Some x \<Rightarrow> (False, x) | None \<Rightarrow> (True, dummy))"

text \<open>
  \<open>SELECT DISTINCT ON (key)\<close> over sorted rows keeps the first row of every run of rows
  with the same key: a row is dropped when its key is the key of the row before it.
\<close>

fun distinct_on_from :: "('r \<Rightarrow> 'k) \<Rightarrow> 'k \<Rightarrow> 'r list \<Rightarrow> 'r list" where
  "distinct_on_from key previous [] = []"
| "distinct_on_from key previous (r # rs) =
     (if key r = previous then distinct_on_from key previous rs
      else r # distinct_on_from key (key r) rs)"

definition distinct_on :: "('r \<Rightarrow> 'k) \<Rightarrow> 'r list \<Rightarrow> 'r list" where
  "distinct_on key rows =
     (case rows of [] \<Rightarrow> [] | r # rs \<Rightarrow> r # distinct_on_from key (key r) rs)"

text \<open>\<open>x LIKE '%c'\<close> for a single character \<open>c\<close>: the string ends with \<open>c\<close>.\<close>

definition like_ending :: "string \<Rightarrow> char \<Rightarrow> bool" where
  "like_ending s c = (s \<noteq> [] \<and> last s = c)"

text \<open>
  \<open>get_station_options\<close>:
  \<^verbatim>\<open>SELECT DISTINCT ON (stop_name, address) stop_id, stop_name, address, trains
  FROM public.stops WHERE stop_id NOT LIKE '%N' AND stop_id NOT LIKE '%S'
  ORDER BY stop_name, address, stop_id;\<close>
\<close>

definition is_station_row :: "stop_row \<Rightarrow> bool" where
  \<comment> \<open>the \<open>WHERE\<close> clause\<close>
  "is_station_row r = (\<not> like_ending (fst r) CHR ''N'' \<and> \<not> like_ending (fst r) CHR ''S'')"

definition station_order :: "stop_row \<Rightarrow> (bool \<times> string) \<times> (bool \<times> string) \<times> string" where
  \<comment> \<open>\<open>ORDER BY stop_name, address, stop_id\<close>\<close>
  "station_order r =
     (case r of (s_stop, stop_name, address, trains) \<Rightarrow>
        (nulls_last stop_name [], nulls_last address [], s_stop))"

definition station_name_address :: "stop_row \<Rightarrow> string option \<times> string option" where
  \<comment> \<open>\<open>DISTINCT ON (stop_name, address)\<close>\<close>
  "station_name_address r =
     (case r of (s_stop, stop_name, address, trains) \<Rightarrow> (stop_name, address))"

definition station_group :: "stop_row \<Rightarrow> (bool \<times> string) \<times> (bool \<times> string)" where
  \<comment> \<open>for the proofs: the part of the sort key that stands for the \<open>DISTINCT ON\<close> columns\<close>
  "station_group r = (fst (station_order r), fst (snd (station_order r)))"

definition get_station_options :: "bool \<Rightarrow> database \<Rightarrow> py_error + stop_row list" where
  "get_station_options fault db =
     execute_sql_query fault
       (\<lambda>d. distinct_on station_name_address
              (sort_key station_order (filter is_station_row (stops d)))) db"




text \<open>
  \<open>fetch_user_alerts\<close>:
  \<^verbatim>\<open>SELECT a.alert_id, a.header_text, a.description_text, ap.start_time, ap.end_time,
         CASE WHEN ap.start_time > NOW() THEN 'upcoming'
              WHEN ap.end_time < NOW() THEN 'past'
              ELSE 'active' END AS alert_status,
         COALESCE(ie.route_id, ie.stop_id) AS entity_id
  FROM alerts a
  JOIN active_periods ap ON a.alert_id = ap.alert_id
  JOIN informed_entities ie ON a.alert_id = ie.alert_id
  JOIN subscriptions s ON (s.route_id = ie.route_id OR s.stop_id = ie.stop_id)
  WHERE s.user_id = %s
  ORDER BY entity_id, alert_status DESC, ap.start_time ASC;\<close>
\<close>

definition alert_status :: "timestamp \<Rightarrow> timestamp option \<Rightarrow> timestamp option \<Rightarrow> string" where
  "alert_status now ap_start ap_end =
     (if sql_gt ap_start now then ''upcoming''
      else if sql_lt ap_end now then ''past''
      else ''active'')"

type_synonym user_alert_row =
  "string \<times> string option \<times> string option \<times> timestamp option \<times> timestamp option
     \<times> string \<times> string option"

definition user_alert_rows :: "timestamp \<Rightarrow> nat \<Rightarrow> database \<Rightarrow> user_alert_row list" where
  "user_alert_rows now user_id d =
     [(a_alert, header, description, ap_start, ap_end,
       alert_status now ap_start ap_end, coalesce ie_route ie_stop).
        (a_alert, header, description) \<leftarrow> alerts d,
        (ap_alert, ap_start, ap_end) \<leftarrow> active_periods d,
        a_alert = ap_alert,
        (ie_alert, ie_agency, ie_route, ie_stop) \<leftarrow> informed_entities d,
        a_alert = ie_alert,
        (subscription_id, s_user, s_stop, s_route) \<leftarrow> subscriptions d,
        sql_eq s_route ie_route \<or> sql_eq s_stop ie_stop,
        s_user = user_id]"

text \<open>
  The three sort keys, the least significant first, each sort stable; the descending one
  is an ascending stable sort of the reversed list, reversed.
\<close>

definition order_user_alerts :: "user_alert_row list \<Rightarrow> user_alert_row list" where
  "order_user_alerts rows =
     sort_key (\<lambda>(a, h, d, ap_start, ap_end, status, entity). nulls_last entity [])
       (rev (sort_key (\<lambda>(a, h, d, ap_start, ap_end, status, entity). status)
          (rev (sort_key
                  (\<lambda>(a, h, d, ap_start, ap_end, status, entity). nulls_last ap_start 0)
                  rows))))"

definition fetch_user_alerts ::
  "bool \<Rightarrow> timestamp \<Rightarrow> database \<Rightarrow> nat \<Rightarrow> py_error + user_alert_row list" where
  "fetch_user_alerts fault now db user_id =
     execute_sql_query fault (\<lambda>d. order_user_alerts (user_alert_rows now user_id d)) db"

text \<open>
  \<open>get_route_options\<close>:
  \<^verbatim>\<open>SELECT route_id, route_short_name, route_long_name FROM public.routes
  ORDER BY route_id ASC\<close>
\<close>

definition get_route_options :: "bool \<Rightarrow> database \<Rightarrow> py_error + route_row list" where
  "get_route_options fault db = execute_sql_query fault (\<lambda>d. sort_key fst (routes d)) db"

section \<open>The subscription operations of the bot (utils/bot\_helpers.py)\<close>

text \<open>
  The module builds its lookup tables once, from the rows of \<open>get_station_options\<close> and
  \<open>get_route_options\<close>. In a dict comprehension a later row with the same key replaces
  an earlier one. An f-string prints \<open>None\<close> as the text \<open>None\<close>.
\<close>

definition py_str :: "string option \<Rightarrow> string" where
  "py_str v = (case v of None \<Rightarrow> ''None'' | Some s \<Rightarrow> s)"

definition STATION_MAP_REVERSE :: "stop_row list \<Rightarrow> string \<Rightarrow> string option" where
  "STATION_MAP_REVERSE STATIONS =
     map_of (rev (map (\<lambda>(s_stop, stop_name, address, trains).
                         (py_str stop_name @ '', '' @ py_str address @ '' ('' @ py_str trains @ '')'',
                          s_stop)) STATIONS))"

definition ROUTE_MAP_REVERSE :: "route_row list \<Rightarrow> string \<Rightarrow> string option" where
  "ROUTE_MAP_REVERSE ROUTES =
     map_of (rev (map (\<lambda>(r_route, short_name, long_name).
                         (py_str short_name @ '' ('' @ py_str long_name @ '')'', r_route)) ROUTES))"

text \<open>
  \<open>get_or_create_user_id\<close>: select the user; when there is none, insert the name and
  select again. \<open>users.username\<close> is \<open>UNIQUE\<close>, \<open>users.user_id\<close> is a serial. \<open>n\<close>
  is the number of statements issued before; the result is the user id or the exception
  raised, the database at that moment and the number of statements issued so far.
\<close>

definition select_user_id :: "string \<Rightarrow> database \<Rightarrow> nat list" where
  \<comment> \<open>\<open>SELECT user_id FROM users WHERE username = %s\<close>\<close>
  "select_user_id user d = map fst (filter (\<lambda>r. snd r = user) (users d))"

definition insert_user :: "string \<Rightarrow> database \<Rightarrow> database" where
  "insert_user user d =
     d\<lparr>users := insert_on_conflict_do_nothing snd (users d) [(users_user_id_seq d, user)],
       users_user_id_seq := users_user_id_seq d + 1\<rparr>"

definition get_or_create_user_id ::
  "bool list \<Rightarrow> nat \<Rightarrow> string \<Rightarrow> database \<Rightarrow> (py_error + nat) \<times> database \<times> nat" where
  "get_or_create_user_id faults n user db =
     (case execute_sql_query (fault_at faults n) (select_user_id user) db of
        Inl e \<Rightarrow> (Inl e, db, n + 1)
      | Inr (u # _) \<Rightarrow> (Inr u, db, n + 1)
      | Inr [] \<Rightarrow>
     (case execute_sql_query (fault_at faults (n + 1)) (insert_user user) db of
        Inl e \<Rightarrow> (Inl e, db, n + 2)
      | Inr db1 \<Rightarrow>
     (case execute_sql_query (fault_at faults (n + 2)) (select_user_id user) db1 of
        Inl e \<Rightarrow> (Inl e, db1, n + 3)
      | Inr [] \<Rightarrow> (Inl IndexError, db1, n + 3)
      | Inr (u # _) \<Rightarrow> (Inr u, db1, n + 3))))"

text \<open>
  The message a handler sends: \<open>You are already subscribed to ...\<close>,
  \<open>Successfully subscribed to ...\<close>, or \<open>Failed to subscribe: ...\<close> with the text of
  the exception.
\<close>

datatype reply =
    Already_subscribed string
  | Successfully_subscribed string
  | Failed_to_subscribe py_error

definition insert_subscription :: "nat \<Rightarrow> string option \<Rightarrow> string option \<Rightarrow> database \<Rightarrow> database" where
  \<comment> \<open>\<open>insert_data("subscriptions", ("user_id", "stop_id", "route_id"), [(..)])\<close>\<close>
  "insert_subscription user s_stop s_route d =
     d\<lparr>subscriptions :=
          subscriptions d @ [(subscriptions_subscription_id_seq d, user, s_stop, s_route)],
       subscriptions_subscription_id_seq := subscriptions_subscription_id_seq d + 1\<rparr>"

text \<open>
  \<open>handle_station_subscription\<close> and \<open>handle_route_subscription\<close>. The name typed by
  the user is looked up with \<open>.get(name, None)\<close>; the duplicate check compares the column
  with that value, and a comparison with \<open>NULL\<close> selects no row. An exception of the
  insert is caught and answered; any other exception leaves the handler. The result is
  the reply or the uncaught exception, and the database the handler leaves behind.
\<close>

definition handle_station_subscription ::
  "bool list \<Rightarrow> (string \<Rightarrow> string option) \<Rightarrow> string \<Rightarrow> string \<Rightarrow> database
     \<Rightarrow> (py_error + reply) \<times> database" where
  "handle_station_subscription faults station_map_reverse user_name station db =
     (let s_stop = station_map_reverse station in
     (case get_or_create_user_id faults 0 user_name db of
        (Inl e, db1, n) \<Rightarrow> (Inl e, db1)
      | (Inr user, db1, n) \<Rightarrow>
     (case execute_sql_query (fault_at faults n)
             (\<lambda>d. filter (\<lambda>(sub, s_user, stop, route). s_user = user \<and> sql_eq stop s_stop)
                    (subscriptions d)) db1 of
        Inl e \<Rightarrow> (Inl e, db1)
      | Inr exists \<Rightarrow>
          (if exists \<noteq> [] then (Inr (Already_subscribed station), db1)
           else (case execute_sql_query (fault_at faults (n + 1))
                        (insert_subscription user s_stop None) db1 of
                   Inl e \<Rightarrow> (Inr (Failed_to_subscribe e), db1)
                 | Inr db2 \<Rightarrow> (Inr (Successfully_subscribed station), db2))))))"

definition handle_route_subscription ::
  "bool list \<Rightarrow> (string \<Rightarrow> string option) \<Rightarrow> string \<Rightarrow> string \<Rightarrow> database
     \<Rightarrow> (py_error + reply) \<times> database" where
  "handle_route_subscription faults route_map_reverse user_name route_name db =
     (let s_route = route_map_reverse route_name in
     (case get_or_create_user_id faults 0 user_name db of
        (Inl e, db1, n) \<Rightarrow> (Inl e, db1)
      | (Inr user, db1, n) \<Rightarrow>
     (case execute_sql_query (fault_at faults n)
             (\<lambda>d. filter (\<lambda>(sub, s_user, stop, route). s_user = user \<and> sql_eq route s_route)
                    (subscriptions d)) db1 of
        Inl e \<Rightarrow> (Inl e, db1)
      | Inr exists \<Rightarrow>
          (if exists \<noteq> [] then (Inr (Already_subscribed route_name), db1)
           else (case execute_sql_query (fault_at faults (n + 1))
                        (insert_subscription user None s_route) db1 of
                   Inl e \<Rightarrow> (Inr (Failed_to_subscribe e), db1)
                 | Inr db2 \<Rightarrow> (Inr (Successfully_subscribed route_name), db2))))))"

section \<open>Concrete inputs\<close>

text \<open>A database with live rows and two alerts from an earlier cycle.\<close>

definition earlier_database :: database where
  "earlier_database =
     empty_database
       \<lparr>stops := [(''127'', Some ''Times Sq-42 St'', Some ''Manhattan, 10036'', Some ''1, 2, 3''),
                  (''127N'', Some ''Times Sq-42 St'', Some ''Manhattan, 10036'', Some ''1, 2, 3''),
                  (''127S'', Some ''Times Sq-42 St'', Some ''Manhattan, 10036'', Some ''1, 2, 3'')],
        trips_real_time := [(''OLD'', None, ''7'')],
        stop_time_update := [(''OLD'', ''701N'', None, Some 50)],
        alerts := [(''alert:old'', Some ''Planned work'', None),
                   (''alert:1'', Some ''Signal problems'', None)],
        active_periods := [(''alert:old'', Some 10, Some 20), (''alert:1'', None, Some 5)],
        informed_entities := [(''alert:old'', None, Some ''7'', None),
                              (''alert:1'', None, Some ''C'', None)]\<rparr>"

definition batch_trip_updates :: "trip_row list" where
  "batch_trip_updates = [(''A1'', None, ''1''), (''A1'', Some 5, ''2''), (''B7'', None, ''1'')]"

definition batch_stop_time_updates :: "stu_row list" where
  "batch_stop_time_updates =
     [(''A1'', ''127N'', Some 120000000, Some 125000000),
      (''A1'', ''127N'', Some 300000000, Some 305000000)]"

definition delays_alert :: alert_dict where
  "delays_alert =
     \<lparr>alert_id = ''alert:1'', header_text = Some ''Delays'', description_text = None,
      alert_active_periods = [(Some 100, None)],
      alert_informed_entities = [(None, Some ''A'', None)]\<rparr>"

text \<open>
  A \<open>strptime\<close> that knows one date and raises on anything else, as Python's does on
  the GTFS time \<open>25:10:00\<close>; a \<open>fromtimestamp\<close> for the years Python can represent.
\<close>

definition example_strptime :: "string \<Rightarrow> py_error + timestamp" where
  "example_strptime text =
     (if text = ''20240101 10:00:00'' then Inr 1704103200000000 else Inl ValueError)"

definition example_fromtimestamp :: "int \<Rightarrow> py_error + timestamp" where
  "example_fromtimestamp seconds =
     (if 0 \<le> seconds \<and> seconds < 253402300800 then Inr (seconds * 1000000)
      else Inl ValueError)"

definition morning_trip :: feed_entity where
  "morning_trip =
     \<lparr>entity_id = ''1'',
      trip_update = Some
        \<lparr>trip = \<lparr>trip_id = ''A1'', start_time = ''10:00:00'', start_date = ''20240101'',
                  route_id = ''1''\<rparr>,
         stop_time_update_list =
           [\<lparr>stop_id = ''127N'', arrival = Some 1704103320, departure = None\<rparr>]\<rparr>,
      alert = None\<rparr>"

definition unscheduled_trip :: feed_entity where
  "unscheduled_trip =
     \<lparr>entity_id = ''2'',
      trip_update = Some
        \<lparr>trip = \<lparr>trip_id = ''U2'', start_time = [], start_date = ''20240101'',
                  route_id = ''2''\<rparr>,
         stop_time_update_list = []\<rparr>,
      alert = None\<rparr>"

definition late_night_trip :: feed_entity where
  "late_night_trip =
     \<lparr>entity_id = ''3'',
      trip_update = Some
        \<lparr>trip = \<lparr>trip_id = ''N3'', start_time = ''25:10:00'', start_date = ''20240101'',
                  route_id = ''3''\<rparr>,
         stop_time_update_list = []\<rparr>,
      alert = None\<rparr>"

text \<open>
  A parser that knows one payload; a network where one feed group does not answer and
  one answers 503; a network where one feed group answers 200 with a body that is no
  feed message.
\<close>

definition example_ParseFromString :: "string \<Rightarrow> feed_message option" where
  "example_ParseFromString content =
     (if content = ''feed'' then Some [morning_trip] else None)"

definition flaky_network :: "string \<Rightarrow> http_result" where
  "flaky_network url =
     (if url = ''https://api-endpoint.mta.info/Dataservice/mtagtfsfeeds/nyct%2Fgtfs-nqrw''
      then Request_failed
      else if url = ''https://api-endpoint.mta.info/Dataservice/mtagtfsfeeds/nyct%2Fgtfs-ace''
      then Response 503 ''Service Unavailable''
      else Response 200 ''feed'')"

definition garbled_network :: "string \<Rightarrow> http_result" where
  "garbled_network url =
     (if url = ''https://api-endpoint.mta.info/Dataservice/mtagtfsfeeds/nyct%2Fgtfs-nqrw''
      then Response 200 ''<html>''
      else Response 200 ''feed'')"

text \<open>A database with live departures at platform \<open>127N\<close>, a user and two subscriptions.\<close>

definition live_database :: database where
  "live_database =
     earlier_database
       \<lparr>trips_real_time :=
          [(''A1'', None, ''1''), (''B2'', None, ''2''), (''C3'', None, ''1''),
           (''D4'', None, ''2'')],
        stop_time_update :=
          [(''D4'', ''127N'', None, Some 200000000),
           (''A1'', ''127N'', Some 120000000, Some 125000000),
           (''C3'', ''127N'', None, Some 60000000),
           (''B2'', ''127N'', None, Some (- 5000000)),
           (''B2'', ''127S'', None, Some 400000000)],
        users := [(1, ''alice'')],
        subscriptions := [(1, 1, None, Some ''7''), (2, 1, Some ''127'', None)]\<rparr>"

section \<open>Facts about the storage engine\<close>

lemma insert_on_conflict_do_nothing_mem:
  "r \<in> set (insert_on_conflict_do_nothing key table rows) \<longleftrightarrow>
     r \<in> set table \<or>
     (key r \<notin> set (map key table) \<and> find (\<lambda>x. key x = key r) rows = Some r)"
proof (induction rows arbitrary: table)
  case Nil
  then show ?case by simp
next
  case (Cons a rows)
  show ?case
  proof (cases "key a \<in> set (map key table)")
    case True
    then show ?thesis using Cons.IH [of table] by auto
  next
    case False
    then show ?thesis using Cons.IH [of "table @ [a]"] by auto
  qed
qed

lemma insert_on_conflict_do_nothing_distinct:
  "distinct (map key table) \<Longrightarrow>
     distinct (map key (insert_on_conflict_do_nothing key table rows))"
  by (induction rows arbitrary: table) auto

lemma fault_at_Nil [simp]: "\<not> fault_at [] n"
  by (simp add: fault_at_def)

lemma find_append:
  "find P (xs @ ys) = (case find P xs of None \<Rightarrow> find P ys | Some x \<Rightarrow> Some x)"
  by (induction xs) auto

section \<open>The realtime reconciliation\<close>

text \<open>
  C1, as the code has it. A reconciliation with no storage fault completes. After a
  reconciliation that completed, \<open>trips_real_time\<close> holds exactly those rows of the batch
  that are the first of the batch with their trip id, so no trip id twice;
  \<open>stop_time_update\<close> holds the stop-time updates of the batch as they are, one row per
  update and in the order of the batch, nothing collapsed: the table has no key but its
  serial id.
\<close>

theorem realtime_reconciliation_live_state:
  "fst (realtime_reconciliation [] trip_updates stus db) = None \<and>
   (\<forall>faults db'.
      realtime_reconciliation faults trip_updates stus db = (None, db') \<longrightarrow>
        (\<forall>r. r \<in> set (trips_real_time db') \<longleftrightarrow>
               find (\<lambda>x. trip_id_of x = trip_id_of r) trip_updates = Some r) \<and>
        distinct (map trip_id_of (trips_real_time db')) \<and>
        stop_time_update db' = stus)"
proof (intro conjI allI impI)
  show "fst (realtime_reconciliation [] trip_updates stus db) = None"
    by (simp add: realtime_reconciliation_def execute_sql_query_def)
next
  fix faults db' r
  assume run: "realtime_reconciliation faults trip_updates stus db = (None, db')"
  have t: "trips_real_time db' = insert_on_conflict_do_nothing trip_id_of [] trip_updates"
    using run
    by (cases trip_updates)
       (auto simp: realtime_reconciliation_def execute_sql_query_def split: if_splits)
  show "r \<in> set (trips_real_time db') \<longleftrightarrow>
          find (\<lambda>x. trip_id_of x = trip_id_of r) trip_updates = Some r"
    by (simp add: t insert_on_conflict_do_nothing_mem)
  show "distinct (map trip_id_of (trips_real_time db'))"
    by (simp add: t insert_on_conflict_do_nothing_distinct)
  show "stop_time_update db' = stus"
    using run
    by (auto simp: realtime_reconciliation_def execute_sql_query_def split: if_splits)
qed

theorem realtime_reconciliation_live_state_witness:
  "fst (realtime_reconciliation [] batch_trip_updates batch_stop_time_updates earlier_database)
     = None \<and>
   distinct (map trip_id_of (trips_real_time
     (snd (realtime_reconciliation [] batch_trip_updates batch_stop_time_updates
        earlier_database)))) \<and>
   stop_time_update
     (snd (realtime_reconciliation [] batch_trip_updates batch_stop_time_updates
        earlier_database)) = batch_stop_time_updates \<and>
   (''A1'', None, ''1'') \<in> set (trips_real_time
     (snd (realtime_reconciliation [] batch_trip_updates batch_stop_time_updates
        earlier_database))) \<and>
   (''A1'', Some 5, ''2'') \<notin> set (trips_real_time
     (snd (realtime_reconciliation [] batch_trip_updates batch_stop_time_updates
        earlier_database)))"
proof -
  let ?R = "realtime_reconciliation [] batch_trip_updates batch_stop_time_updates
              earlier_database"
  note live = realtime_reconciliation_live_state
    [of batch_trip_updates batch_stop_time_updates earlier_database]
  from live have ok: "fst ?R = None" by (rule conjunct1)
  then have h: "?R = (None, snd ?R)" by (metis prod.collapse)
  note facts = live [THEN conjunct2, rule_format, OF h]
  have first: "find (\<lambda>x. trip_id_of x = trip_id_of (''A1'', None, ''1'')) batch_trip_updates
                 = Some (''A1'', None, ''1'')"
    by (simp add: batch_trip_updates_def trip_id_of_def)
  have second: "find (\<lambda>x. trip_id_of x = trip_id_of (''A1'', Some 5, ''2'')) batch_trip_updates
                  \<noteq> Some (''A1'', Some 5, ''2'')"
    by (simp add: batch_trip_updates_def trip_id_of_def)
  from facts first second ok show ?thesis by blast
qed

text \<open>
  C1 as stated fails: a batch with two stop-time updates for the same trip and stop is
  reconciled without error, and both rows are in the table afterwards.
\<close>

theorem realtime_reconciliation_keeps_duplicate_stop_times:
  "fst (realtime_reconciliation [] batch_trip_updates batch_stop_time_updates earlier_database)
     = None \<and>
   \<not> distinct (map trip_stop_of (stop_time_update
       (snd (realtime_reconciliation [] batch_trip_updates batch_stop_time_updates
          earlier_database))))"
  by (simp add: realtime_reconciliation_def execute_sql_query_def batch_trip_updates_def
      batch_stop_time_updates_def trip_stop_of_def)

section \<open>The alert reconciliation\<close>

text \<open>Where one pass of the loop body can end: after any of its statements.\<close>

lemma reconcile_alert_stages:
  assumes "reconcile_alert faults n a db = (raised, db', n')"
  shows "(raised = Some DatabaseError \<and>
            (db' = db \<or>
             db' = upsert_alert a db \<or>
             db' = delete_active_periods (alert_id a) (upsert_alert a db) \<or>
             db' = put_active_periods a (delete_active_periods (alert_id a) (upsert_alert a db)) \<or>
             db' = delete_informed_entities (alert_id a)
                     (put_active_periods a
                        (delete_active_periods (alert_id a) (upsert_alert a db))))) \<or>
         (raised = None \<and>
            db' = put_informed_entities a
                    (delete_informed_entities (alert_id a)
                       (put_active_periods a
                          (delete_active_periods (alert_id a) (upsert_alert a db)))))"
  using assms
  unfolding reconcile_alert_def execute_sql_query_def Let_def upsert_alert_def
    put_active_periods_def put_informed_entities_def
  by (auto split: sum.splits if_splits)

lemma filter_fst_rows:
  "filter (\<lambda>r. fst r = i) (map (\<lambda>p. (x, f p)) ps) = (if i = x then map (\<lambda>p. (x, f p)) ps else [])"
  by (induction ps) auto

lemma stored_periods_put:
  "stored_periods (put_active_periods a d) i =
     stored_periods d i @ (if i = alert_id a then alert_active_periods a else [])"
  by (simp add: put_active_periods_def insert_active_periods_def stored_periods_def
      active_period_rows_def split_def filter_fst_rows comp_def)

lemma stored_entities_put:
  "stored_entities (put_informed_entities a d) i =
     stored_entities d i @ (if i = alert_id a then alert_informed_entities a else [])"
  by (simp add: put_informed_entities_def insert_informed_entities_def stored_entities_def
      informed_entity_rows_def split_def filter_fst_rows comp_def)

lemma stored_periods_delete:
  "stored_periods (delete_active_periods x d) i = (if i = x then [] else stored_periods d i)"
  by (auto simp: delete_active_periods_def stored_periods_def filter_empty_conv
      intro!: arg_cong [where f = "map snd"] filter_cong)

lemma stored_entities_delete:
  "stored_entities (delete_informed_entities x d) i = (if i = x then [] else stored_entities d i)"
  by (auto simp: delete_informed_entities_def stored_entities_def filter_empty_conv
      intro!: arg_cong [where f = "map snd"] filter_cong)

lemma stored_alert_upsert:
  assumes "i \<noteq> alert_id a"
  shows "stored_alert (upsert_alert a d) i = stored_alert d i"
proof -
  have "filter (\<lambda>r. fst r = i) (map (\<lambda>r. if fst r = alert_id a then (alert_id a, h, t) else r) xs)
          = filter (\<lambda>r. fst r = i) xs" for h t and xs :: "alert_row list"
    using assms by (induction xs) auto
  then show ?thesis
    using assms
    by (simp add: upsert_alert_def update_alert_def insert_alert_def stored_alert_def)
qed

lemma stored_other_tables [simp]:
  "stored_periods (upsert_alert a d) i = stored_periods d i"
  "stored_entities (upsert_alert a d) i = stored_entities d i"
  "stored_alert (delete_active_periods x d) i = stored_alert d i"
  "stored_entities (delete_active_periods x d) i = stored_entities d i"
  "stored_alert (put_active_periods a d) i = stored_alert d i"
  "stored_entities (put_active_periods a d) i = stored_entities d i"
  "stored_alert (delete_informed_entities x d) i = stored_alert d i"
  "stored_periods (delete_informed_entities x d) i = stored_periods d i"
  "stored_alert (put_informed_entities a d) i = stored_alert d i"
  "stored_periods (put_informed_entities a d) i = stored_periods d i"
  by (simp_all add: upsert_alert_def update_alert_def insert_alert_def
      delete_active_periods_def put_active_periods_def insert_active_periods_def
      delete_informed_entities_def put_informed_entities_def insert_informed_entities_def
      stored_alert_def stored_periods_def stored_entities_def)

lemmas stored_simps =
  stored_periods_put stored_entities_put stored_periods_delete stored_entities_delete
  stored_alert_upsert

lemma reconcile_alert_frame:
  assumes "reconcile_alert faults n a db = (raised, db', n')" and "i \<noteq> alert_id a"
  shows "stored_alert db' i = stored_alert db i \<and>
         stored_periods db' i = stored_periods db i \<and>
         stored_entities db' i = stored_entities db i"
  using reconcile_alert_stages [OF assms(1)] assms(2)
  by (elim disjE conjE) (simp_all add: stored_simps)

lemma reconcile_alert_replaces:
  assumes "reconcile_alert faults n a db = (None, db', n')"
  shows "stored_periods db' (alert_id a) = alert_active_periods a \<and>
         stored_entities db' (alert_id a) = alert_informed_entities a"
  using reconcile_alert_stages [OF assms]
  by (simp add: stored_simps)

lemma reconcile_alert_no_fault: "fst (reconcile_alert [] n a db) = None"
  by (simp add: reconcile_alert_def execute_sql_query_def Let_def)

lemma reconcile_alerts_no_fault: "fst (reconcile_alerts [] n batch db) = None"
proof (induction batch arbitrary: n db)
  case Nil
  then show ?case by simp
next
  case (Cons a batch)
  obtain db1 n1 where "reconcile_alert [] n a db = (None, db1, n1)"
    using reconcile_alert_no_fault [of n a db]
    by (cases "reconcile_alert [] n a db") auto
  then show ?case using Cons.IH by simp
qed

lemma reconcile_alerts_frame:
  assumes "reconcile_alerts faults n batch db = (raised, db')"
    and "i \<notin> set (map alert_id batch)"
  shows "stored_alert db' i = stored_alert db i \<and>
         stored_periods db' i = stored_periods db i \<and>
         stored_entities db' i = stored_entities db i"
  using assms
proof (induction batch arbitrary: n db)
  case Nil
  then show ?case by simp
next
  case (Cons a batch)
  obtain r db1 n1 where step: "reconcile_alert faults n a db = (r, db1, n1)"
    by (cases "reconcile_alert faults n a db") auto
  from Cons.prems(2) have ne: "i \<noteq> alert_id a" and rest: "i \<notin> set (map alert_id batch)"
    by auto
  note f = reconcile_alert_frame [OF step ne]
  show ?case
  proof (cases r)
    case None
    with Cons.prems(1) step have "reconcile_alerts faults n1 batch db1 = (raised, db')"
      by simp
    from Cons.IH [OF this rest] f show ?thesis by simp
  next
    case (Some e)
    with Cons.prems(1) step have "db' = db1" by simp
    with f show ?thesis by simp
  qed
qed

lemma reconcile_alerts_last_wins:
  assumes "reconcile_alerts faults n batch db = (None, db')"
    and "find (\<lambda>x. alert_id x = i) (rev batch) = Some a"
  shows "stored_periods db' i = alert_active_periods a \<and>
         stored_entities db' i = alert_informed_entities a"
  using assms
proof (induction batch arbitrary: n db)
  case Nil
  then show ?case by simp
next
  case (Cons b batch)
  obtain r db1 n1 where step: "reconcile_alert faults n b db = (r, db1, n1)"
    by (cases "reconcile_alert faults n b db") auto
  with Cons.prems(1) have r: "r = None"
    and run: "reconcile_alerts faults n1 batch db1 = (None, db')"
    by (auto split: option.splits)
  show ?case
  proof (cases "find (\<lambda>x. alert_id x = i) (rev batch)")
    case (Some c)
    with Cons.prems(2) have "c = a" by (simp add: find_append)
    with Some Cons.IH [OF run] show ?thesis by simp
  next
    case None
    with Cons.prems(2) have ba: "b = a" and ia: "alert_id a = i"
      by (auto simp: find_append split: if_splits)
    from None have "i \<notin> set (map alert_id batch)"
      by (auto simp: find_None_iff)
    from reconcile_alerts_frame [OF run this]
      reconcile_alert_replaces [OF step [unfolded r]] ba ia
    show ?thesis by simp
  qed
qed

text \<open>
  C2, as the code has it. A reconciliation with no storage fault completes. After a
  reconciliation that completed, the stored active periods and informed entities of an
  alert id of the batch are exactly those of the last entry of the batch with that id
  (the entry itself when the ids of the batch are distinct); what was stored for the id
  before is gone. Whatever happens, also when a storage error ends the loop early, an
  alert id that is not in the batch keeps its alert row, its periods and its entities.
\<close>

theorem alert_reconciliation_per_alert:
  "fst (alert_reconciliation [] batch db) = None \<and>
   (\<forall>faults db' i a.
      alert_reconciliation faults batch db = (None, db') \<longrightarrow>
      find (\<lambda>x. alert_id x = i) (rev batch) = Some a \<longrightarrow>
        stored_periods db' i = alert_active_periods a \<and>
        stored_entities db' i = alert_informed_entities a) \<and>
   (\<forall>faults logged db' i.
      alert_reconciliation faults batch db = (logged, db') \<longrightarrow>
      i \<notin> set (map alert_id batch) \<longrightarrow>
        stored_alert db' i = stored_alert db i \<and>
        stored_periods db' i = stored_periods db i \<and>
        stored_entities db' i = stored_entities db i)"
  unfolding alert_reconciliation_def
  using reconcile_alerts_no_fault reconcile_alerts_last_wins reconcile_alerts_frame
  by blast

theorem alert_reconciliation_per_alert_witness:
  "fst (alert_reconciliation [] [delays_alert] earlier_database) = None \<and>
   find (\<lambda>x. alert_id x = ''alert:1'') (rev [delays_alert]) = Some delays_alert \<and>
   ''alert:old'' \<notin> set (map alert_id [delays_alert]) \<and>
   stored_periods (snd (alert_reconciliation [] [delays_alert] earlier_database)) ''alert:1''
     = [(Some 100, None)] \<and>
   stored_entities (snd (alert_reconciliation [] [delays_alert] earlier_database)) ''alert:1''
     = [(None, Some ''A'', None)] \<and>
   stored_alert (snd (alert_reconciliation [] [delays_alert] earlier_database)) ''alert:old''
     = [(''alert:old'', Some ''Planned work'', None)] \<and>
   stored_periods (snd (alert_reconciliation [] [delays_alert] earlier_database)) ''alert:old''
     = [(Some 10, Some 20)] \<and>
   stored_entities (snd (alert_reconciliation [] [delays_alert] earlier_database)) ''alert:old''
     = [(None, Some ''7'', None)]"
proof -
  let ?R = "alert_reconciliation [] [delays_alert] earlier_database"
  note per_alert = alert_reconciliation_per_alert [of "[delays_alert]" earlier_database]
  from per_alert have ok: "fst ?R = None" by (rule conjunct1)
  then have h: "?R = (None, snd ?R)" by (metis prod.collapse)
  have last: "find (\<lambda>x. alert_id x = ''alert:1'') (rev [delays_alert]) = Some delays_alert"
    by (simp add: delays_alert_def)
  have other: "''alert:old'' \<notin> set (map alert_id [delays_alert])"
    by (simp add: delays_alert_def)
  note new = per_alert [THEN conjunct2, THEN conjunct1, rule_format, OF h last]
  note old = per_alert [THEN conjunct2, THEN conjunct2, rule_format, OF h other]
  have before:
    "stored_alert earlier_database ''alert:old'' = [(''alert:old'', Some ''Planned work'', None)]"
    "stored_periods earlier_database ''alert:old'' = [(Some 10, Some 20)]"
    "stored_entities earlier_database ''alert:old'' = [(None, Some ''7'', None)]"
    by (simp_all add: earlier_database_def empty_database_def stored_alert_def
        stored_periods_def stored_entities_def)
  from new have
    "stored_periods (snd ?R) ''alert:1'' = [(Some 100, None)]"
    "stored_entities (snd ?R) ''alert:1'' = [(None, Some ''A'', None)]"
    by (simp_all add: delays_alert_def)
  with ok last other old before show ?thesis by simp
qed

text \<open>
  C2 as stated fails when two entries of the batch carry the same alert id: the periods
  of the first entry are deleted again when the second entry is reconciled.
\<close>

theorem alert_reconciliation_same_id_twice:
  "delays_alert \<in> set [delays_alert, delays_alert\<lparr>alert_active_periods := []\<rparr>] \<and>
   fst (alert_reconciliation []
          [delays_alert, delays_alert\<lparr>alert_active_periods := []\<rparr>] earlier_database) = None \<and>
   stored_periods
     (snd (alert_reconciliation []
             [delays_alert, delays_alert\<lparr>alert_active_periods := []\<rparr>] earlier_database))
     (alert_id delays_alert) \<noteq> alert_active_periods delays_alert"
proof -
  let ?again = "delays_alert\<lparr>alert_active_periods := []\<rparr>"
  let ?R = "alert_reconciliation [] [delays_alert, ?again] earlier_database"
  have ok: "fst ?R = None"
    unfolding alert_reconciliation_def by (rule reconcile_alerts_no_fault)
  then have h: "reconcile_alerts [] 0 [delays_alert, ?again] earlier_database = (None, snd ?R)"
    unfolding alert_reconciliation_def by (metis prod.collapse)
  have "find (\<lambda>x. alert_id x = ''alert:1'') (rev [delays_alert, ?again]) = Some ?again"
    by (simp add: delays_alert_def)
  from reconcile_alerts_last_wins [OF h this]
  have "stored_periods (snd ?R) ''alert:1'' = []" by simp
  with ok show ?thesis by (simp add: delays_alert_def)
qed

text \<open>The database one pass of the loop body leaves when its first fault is at a given statement.\<close>

lemma reconcile_alert_at_fault:
  "fault_at faults n \<Longrightarrow>
     fst (reconcile_alert faults n a db) = Some DatabaseError \<and>
     fst (snd (reconcile_alert faults n a db)) = db"
  "\<not> fault_at faults n \<Longrightarrow> fault_at faults (n + 1) \<Longrightarrow>
     fst (reconcile_alert faults n a db) = Some DatabaseError \<and>
     fst (snd (reconcile_alert faults n a db)) = db"
  "\<not> fault_at faults n \<Longrightarrow> \<not> fault_at faults (n + 1) \<Longrightarrow> fault_at faults (n + 2) \<Longrightarrow>
     fst (reconcile_alert faults n a db) = Some DatabaseError \<and>
     fst (snd (reconcile_alert faults n a db)) = upsert_alert a db"
  "\<not> fault_at faults n \<Longrightarrow> \<not> fault_at faults (n + 1) \<Longrightarrow> \<not> fault_at faults (n + 2) \<Longrightarrow>
   active_period_rows a \<noteq> [] \<Longrightarrow> fault_at faults (n + 3) \<Longrightarrow>
     fst (reconcile_alert faults n a db) = Some DatabaseError \<and>
     fst (snd (reconcile_alert faults n a db))
       = delete_active_periods (alert_id a) (upsert_alert a db)"
  by (simp_all add: reconcile_alert_def execute_sql_query_def Let_def upsert_alert_def)

lemma reconcile_alert_at_fault_delete_entities:
  assumes "\<not> fault_at faults n" "\<not> fault_at faults (n + 1)" "\<not> fault_at faults (n + 2)"
    and "active_period_rows a \<noteq> [] \<longrightarrow> \<not> fault_at faults (n + 3)"
    and "fault_at faults (if active_period_rows a \<noteq> [] then n + 4 else n + 3)"
  shows "fst (reconcile_alert faults n a db) = Some DatabaseError \<and>
     fst (snd (reconcile_alert faults n a db))
       = put_active_periods a (delete_active_periods (alert_id a) (upsert_alert a db))"
  using assms
  by (cases "active_period_rows a = []")
     (simp_all add: reconcile_alert_def execute_sql_query_def Let_def upsert_alert_def
        put_active_periods_def)

lemma reconcile_alert_at_fault_insert_entities:
  assumes "\<not> fault_at faults n" "\<not> fault_at faults (n + 1)" "\<not> fault_at faults (n + 2)"
    and "active_period_rows a \<noteq> [] \<longrightarrow> \<not> fault_at faults (n + 3)"
    and "\<not> fault_at faults (if active_period_rows a \<noteq> [] then n + 4 else n + 3)"
    and "informed_entity_rows a \<noteq> []"
    and "fault_at faults (if active_period_rows a \<noteq> [] then n + 5 else n + 4)"
  shows "fst (reconcile_alert faults n a db) = Some DatabaseError \<and>
     fst (snd (reconcile_alert faults n a db))
       = delete_informed_entities (alert_id a)
           (put_active_periods a (delete_active_periods (alert_id a) (upsert_alert a db)))"
  using assms
  by (cases "active_period_rows a = []")
     (simp_all add: reconcile_alert_def execute_sql_query_def Let_def upsert_alert_def
        put_active_periods_def add.commute [of _ n])

text \<open>
  C8, as the code has it. Every statement is its own transaction: the statement that
  meets the storage error is rolled back alone and its \<open>DatabaseError\<close> is raised again,
  and every statement before it stays committed. So a reconciliation that a storage error
  ends is left exactly where the failing statement found it. The realtime
  reconciliation: unchanged when the first delete fails; \<open>trips_real_time\<close> empty when
  the second delete fails; both live tables empty when the insert of the trips fails (or
  of the stop-time updates, when there are no trips); the new trips with
  \<open>stop_time_update\<close> empty when the insert of the stop-time updates fails. The error
  escapes the script. One alert's replacement: unchanged when the select or the upsert
  fails; the alert upserted when the delete of its periods fails; its periods deleted
  and none inserted when the insert of the periods fails; its periods replaced and its
  entities as before when the delete of the entities fails; its periods replaced and its
  entities deleted when the insert of the entities fails. The alert script catches the
  error and logs it.
\<close>

theorem storage_error_leaves_committed_statements:
  "(fault_at faults 0 \<longrightarrow>
      realtime_reconciliation faults trip_updates stus db = (Some DatabaseError, db)) \<and>
   (\<not> fault_at faults 0 \<and> fault_at faults 1 \<longrightarrow>
      realtime_reconciliation faults trip_updates stus db
        = (Some DatabaseError, db\<lparr>trips_real_time := []\<rparr>)) \<and>
   (\<not> fault_at faults 0 \<and> \<not> fault_at faults 1 \<and> fault_at faults 2 \<and>
    (trip_updates \<noteq> [] \<or> stus \<noteq> []) \<longrightarrow>
      realtime_reconciliation faults trip_updates stus db
        = (Some DatabaseError, db\<lparr>trips_real_time := [], stop_time_update := []\<rparr>)) \<and>
   (\<not> fault_at faults 0 \<and> \<not> fault_at faults 1 \<and> \<not> fault_at faults 2 \<and>
    trip_updates \<noteq> [] \<and> stus \<noteq> [] \<and> fault_at faults 3 \<longrightarrow>
      realtime_reconciliation faults trip_updates stus db
        = (Some DatabaseError,
           db\<lparr>trips_real_time := insert_on_conflict_do_nothing trip_id_of [] trip_updates,
              stop_time_update := []\<rparr>)) \<and>
   (fault_at faults n \<or> fault_at faults (n + 1) \<longrightarrow>
      fst (reconcile_alert faults n a db) = Some DatabaseError \<and>
      fst (snd (reconcile_alert faults n a db)) = db) \<and>
   (\<not> fault_at faults n \<and> \<not> fault_at faults (n + 1) \<and> fault_at faults (n + 2) \<longrightarrow>
      fst (reconcile_alert faults n a db) = Some DatabaseError \<and>
      fst (snd (reconcile_alert faults n a db)) = upsert_alert a db \<and>
      stored_periods (fst (snd (reconcile_alert faults n a db))) (alert_id a)
        = stored_periods db (alert_id a) \<and>
      stored_entities (fst (snd (reconcile_alert faults n a db))) (alert_id a)
        = stored_entities db (alert_id a)) \<and>
   (\<not> fault_at faults n \<and> \<not> fault_at faults (n + 1) \<and> \<not> fault_at faults (n + 2) \<and>
    active_period_rows a \<noteq> [] \<and> fault_at faults (n + 3) \<longrightarrow>
      fst (reconcile_alert faults n a db) = Some DatabaseError \<and>
      fst (snd (reconcile_alert faults n a db))
        = delete_active_periods (alert_id a) (upsert_alert a db) \<and>
      stored_periods (fst (snd (reconcile_alert faults n a db))) (alert_id a) = [] \<and>
      stored_entities (fst (snd (reconcile_alert faults n a db))) (alert_id a)
        = stored_entities db (alert_id a)) \<and>
   (\<not> fault_at faults n \<and> \<not> fault_at faults (n + 1) \<and> \<not> fault_at faults (n + 2) \<and>
    (active_period_rows a \<noteq> [] \<longrightarrow> \<not> fault_at faults (n + 3)) \<and>
    fault_at faults (if active_period_rows a \<noteq> [] then n + 4 else n + 3) \<longrightarrow>
      fst (reconcile_alert faults n a db) = Some DatabaseError \<and>
      fst (snd (reconcile_alert faults n a db))
        = put_active_periods a (delete_active_periods (alert_id a) (upsert_alert a db)) \<and>
      stored_periods (fst (snd (reconcile_alert faults n a db))) (alert_id a)
        = alert_active_periods a \<and>
      stored_entities (fst (snd (reconcile_alert faults n a db))) (alert_id a)
        = stored_entities db (alert_id a)) \<and>
   (\<not> fault_at faults n \<and> \<not> fault_at faults (n + 1) \<and> \<not> fault_at faults (n + 2) \<and>
    (active_period_rows a \<noteq> [] \<longrightarrow> \<not> fault_at faults (n + 3)) \<and>
    \<not> fault_at faults (if active_period_rows a \<noteq> [] then n + 4 else n + 3) \<and>
    informed_entity_rows a \<noteq> [] \<and>
    fault_at faults (if active_period_rows a \<noteq> [] then n + 5 else n + 4) \<longrightarrow>
      fst (reconcile_alert faults n a db) = Some DatabaseError \<and>
      fst (snd (reconcile_alert faults n a db))
        = delete_informed_entities (alert_id a)
            (put_active_periods a (delete_active_periods (alert_id a) (upsert_alert a db))) \<and>
      stored_periods (fst (snd (reconcile_alert faults n a db))) (alert_id a)
        = alert_active_periods a \<and>
      stored_entities (fst (snd (reconcile_alert faults n a db))) (alert_id a) = [])"
proof (intro conjI)
  show "fault_at faults 0 \<longrightarrow>
      realtime_reconciliation faults trip_updates stus db = (Some DatabaseError, db)"
    by (simp add: realtime_reconciliation_def execute_sql_query_def)
  show "\<not> fault_at faults 0 \<and> fault_at faults 1 \<longrightarrow>
      realtime_reconciliation faults trip_updates stus db
        = (Some DatabaseError, db\<lparr>trips_real_time := []\<rparr>)"
    by (simp add: realtime_reconciliation_def execute_sql_query_def)
  show "\<not> fault_at faults 0 \<and> \<not> fault_at faults 1 \<and> fault_at faults 2 \<and>
    (trip_updates \<noteq> [] \<or> stus \<noteq> []) \<longrightarrow>
      realtime_reconciliation faults trip_updates stus db
        = (Some DatabaseError, db\<lparr>trips_real_time := [], stop_time_update := []\<rparr>)"
    by (auto simp: realtime_reconciliation_def execute_sql_query_def)
  show "\<not> fault_at faults 0 \<and> \<not> fault_at faults 1 \<and> \<not> fault_at faults 2 \<and>
    trip_updates \<noteq> [] \<and> stus \<noteq> [] \<and> fault_at faults 3 \<longrightarrow>
      realtime_reconciliation faults trip_updates stus db
        = (Some DatabaseError,
           db\<lparr>trips_real_time := insert_on_conflict_do_nothing trip_id_of [] trip_updates,
              stop_time_update := []\<rparr>)"
    by (simp add: realtime_reconciliation_def execute_sql_query_def)
  show "fault_at faults n \<or> fault_at faults (n + 1) \<longrightarrow>
      fst (reconcile_alert faults n a db) = Some DatabaseError \<and>
      fst (snd (reconcile_alert faults n a db)) = db"
    using reconcile_alert_at_fault(1,2) [of faults n a db] by blast
  show "\<not> fault_at faults n \<and> \<not> fault_at faults (n + 1) \<and> fault_at faults (n + 2) \<longrightarrow>
      fst (reconcile_alert faults n a db) = Some DatabaseError \<and>
      fst (snd (reconcile_alert faults n a db)) = upsert_alert a db \<and>
      stored_periods (fst (snd (reconcile_alert faults n a db))) (alert_id a)
        = stored_periods db (alert_id a) \<and>
      stored_entities (fst (snd (reconcile_alert faults n a db))) (alert_id a)
        = stored_entities db (alert_id a)"
  proof (intro impI, elim conjE)
    assume "\<not> fault_at faults n" "\<not> fault_at faults (n + 1)" "fault_at faults (n + 2)"
    from reconcile_alert_at_fault(3) [OF this, of a db]
    show "fst (reconcile_alert faults n a db) = Some DatabaseError \<and>
      fst (snd (reconcile_alert faults n a db)) = upsert_alert a db \<and>
      stored_periods (fst (snd (reconcile_alert faults n a db))) (alert_id a)
        = stored_periods db (alert_id a) \<and>
      stored_entities (fst (snd (reconcile_alert faults n a db))) (alert_id a)
        = stored_entities db (alert_id a)"
      by (simp add: stored_simps)
  qed
  show "\<not> fault_at faults n \<and> \<not> fault_at faults (n + 1) \<and> \<not> fault_at faults (n + 2) \<and>
    active_period_rows a \<noteq> [] \<and> fault_at faults (n + 3) \<longrightarrow>
      fst (reconcile_alert faults n a db) = Some DatabaseError \<and>
      fst (snd (reconcile_alert faults n a db))
        = delete_active_periods (alert_id a) (upsert_alert a db) \<and>
      stored_periods (fst (snd (reconcile_alert faults n a db))) (alert_id a) = [] \<and>
      stored_entities (fst (snd (reconcile_alert faults n a db))) (alert_id a)
        = stored_entities db (alert_id a)"
  proof (intro impI, elim conjE)
    assume "\<not> fault_at faults n" "\<not> fault_at faults (n + 1)" "\<not> fault_at faults (n + 2)"
      "active_period_rows a \<noteq> []" "fault_at faults (n + 3)"
    from reconcile_alert_at_fault(4) [OF this, of db]
    show "fst (reconcile_alert faults n a db) = Some DatabaseError \<and>
      fst (snd (reconcile_alert faults n a db))
        = delete_active_periods (alert_id a) (upsert_alert a db) \<and>
      stored_periods (fst (snd (reconcile_alert faults n a db))) (alert_id a) = [] \<and>
      stored_entities (fst (snd (reconcile_alert faults n a db))) (alert_id a)
        = stored_entities db (alert_id a)"
      by (simp add: stored_simps)
  qed
  show "\<not> fault_at faults n \<and> \<not> fault_at faults (n + 1) \<and> \<not> fault_at faults (n + 2) \<and>
    (active_period_rows a \<noteq> [] \<longrightarrow> \<not> fault_at faults (n + 3)) \<and>
    fault_at faults (if active_period_rows a \<noteq> [] then n + 4 else n + 3) \<longrightarrow>
      fst (reconcile_alert faults n a db) = Some DatabaseError \<and>
      fst (snd (reconcile_alert faults n a db))
        = put_active_periods a (delete_active_periods (alert_id a) (upsert_alert a db)) \<and>
      stored_periods (fst (snd (reconcile_alert faults n a db))) (alert_id a)
        = alert_active_periods a \<and>
      stored_entities (fst (snd (reconcile_alert faults n a db))) (alert_id a)
        = stored_entities db (alert_id a)"
  proof (intro impI, elim conjE)
    assume "\<not> fault_at faults n" "\<not> fault_at faults (n + 1)" "\<not> fault_at faults (n + 2)"
      "active_period_rows a \<noteq> [] \<longrightarrow> \<not> fault_at faults (n + 3)"
      "fault_at faults (if active_period_rows a \<noteq> [] then n + 4 else n + 3)"
    from reconcile_alert_at_fault_delete_entities [OF this, of db]
    show "fst (reconcile_alert faults n a db) = Some DatabaseError \<and>
      fst (snd (reconcile_alert faults n a db))
        = put_active_periods a (delete_active_periods (alert_id a) (upsert_alert a db)) \<and>
      stored_periods (fst (snd (reconcile_alert faults n a db))) (alert_id a)
        = alert_active_periods a \<and>
      stored_entities (fst (snd (reconcile_alert faults n a db))) (alert_id a)
        = stored_entities db (alert_id a)"
      by (simp add: stored_simps)
  qed
  show "\<not> fault_at faults n \<and> \<not> fault_at faults (n + 1) \<and> \<not> fault_at faults (n + 2) \<and>
    (active_period_rows a \<noteq> [] \<longrightarrow> \<not> fault_at faults (n + 3)) \<and>
    \<not> fault_at faults (if active_period_rows a \<noteq> [] then n + 4 else n + 3) \<and>
    informed_entity_rows a \<noteq> [] \<and>
    fault_at faults (if active_period_rows a \<noteq> [] then n + 5 else n + 4) \<longrightarrow>
      fst (reconcile_alert faults n a db) = Some DatabaseError \<and>
      fst (snd (reconcile_alert faults n a db))
        = delete_informed_entities (alert_id a)
            (put_active_periods a (delete_active_periods (alert_id a) (upsert_alert a db))) \<and>
      stored_periods (fst (snd (reconcile_alert faults n a db))) (alert_id a)
        = alert_active_periods a \<and>
      stored_entities (fst (snd (reconcile_alert faults n a db))) (alert_id a) = []"
  proof (intro impI, elim conjE)
    assume "\<not> fault_at faults n" "\<not> fault_at faults (n + 1)" "\<not> fault_at faults (n + 2)"
      "active_period_rows a \<noteq> [] \<longrightarrow> \<not> fault_at faults (n + 3)"
      "\<not> fault_at faults (if active_period_rows a \<noteq> [] then n + 4 else n + 3)"
      "informed_entity_rows a \<noteq> []"
      "fault_at faults (if active_period_rows a \<noteq> [] then n + 5 else n + 4)"
    from reconcile_alert_at_fault_insert_entities [OF this, of db]
    show "fst (reconcile_alert faults n a db) = Some DatabaseError \<and>
      fst (snd (reconcile_alert faults n a db))
        = delete_informed_entities (alert_id a)
            (put_active_periods a (delete_active_periods (alert_id a) (upsert_alert a db))) \<and>
      stored_periods (fst (snd (reconcile_alert faults n a db))) (alert_id a)
        = alert_active_periods a \<and>
      stored_entities (fst (snd (reconcile_alert faults n a db))) (alert_id a) = []"
      by (simp add: stored_simps)
  qed
qed

theorem storage_error_leaves_committed_statements_witness:
  "realtime_reconciliation [False, True] batch_trip_updates batch_stop_time_updates
     earlier_database
     = (Some DatabaseError, earlier_database\<lparr>trips_real_time := []\<rparr>) \<and>
   realtime_reconciliation [False, False, False, True] batch_trip_updates
     batch_stop_time_updates earlier_database
     = (Some DatabaseError,
        earlier_database\<lparr>trips_real_time := [(''A1'', None, ''1''), (''B7'', None, ''1'')],
                          stop_time_update := []\<rparr>) \<and>
   fst (reconcile_alert [False, False, False, True] 0 delays_alert earlier_database)
     = Some DatabaseError \<and>
   stored_periods
     (fst (snd (reconcile_alert [False, False, False, True] 0 delays_alert earlier_database)))
     ''alert:1'' = [] \<and>
   stored_entities
     (fst (snd (reconcile_alert [False, False, False, True] 0 delays_alert earlier_database)))
     ''alert:1'' = [(None, Some ''C'', None)]"
proof -
  note second = storage_error_leaves_committed_statements
    [of "[False, True]" batch_trip_updates batch_stop_time_updates earlier_database
        0 delays_alert, THEN conjunct2, THEN conjunct1, rule_format]
  note fourth = storage_error_leaves_committed_statements
    [of "[False, False, False, True]" batch_trip_updates batch_stop_time_updates
        earlier_database 0 delays_alert]
  have trips: "insert_on_conflict_do_nothing trip_id_of [] batch_trip_updates
                 = [(''A1'', None, ''1''), (''B7'', None, ''1'')]"
    by (simp add: batch_trip_updates_def trip_id_of_def)
  have l2: "realtime_reconciliation [False, True] batch_trip_updates batch_stop_time_updates
     earlier_database = (Some DatabaseError, earlier_database\<lparr>trips_real_time := []\<rparr>)"
    by (rule second) (simp add: fault_at_def)
  have l4: "realtime_reconciliation [False, False, False, True] batch_trip_updates
     batch_stop_time_updates earlier_database
     = (Some DatabaseError,
        earlier_database\<lparr>trips_real_time := [(''A1'', None, ''1''), (''B7'', None, ''1'')],
                          stop_time_update := []\<rparr>)"
    unfolding trips [symmetric]
    by (rule fourth [THEN conjunct2, THEN conjunct2, THEN conjunct2, THEN conjunct1,
          rule_format])
       (simp add: fault_at_def batch_trip_updates_def batch_stop_time_updates_def)
  have old: "stored_entities earlier_database ''alert:1'' = [(None, Some ''C'', None)]"
    by (simp add: stored_entities_def earlier_database_def empty_database_def)
  have id: "alert_id delays_alert = ''alert:1''"
    by (simp add: delays_alert_def)
  have at_insert: "fst (reconcile_alert [False, False, False, True] 0 delays_alert
             earlier_database) = Some DatabaseError \<and>
        fst (snd (reconcile_alert [False, False, False, True] 0 delays_alert earlier_database))
          = delete_active_periods (alert_id delays_alert)
              (upsert_alert delays_alert earlier_database) \<and>
        stored_periods
          (fst (snd (reconcile_alert [False, False, False, True] 0 delays_alert
             earlier_database))) (alert_id delays_alert) = [] \<and>
        stored_entities
          (fst (snd (reconcile_alert [False, False, False, True] 0 delays_alert
             earlier_database))) (alert_id delays_alert)
          = stored_entities earlier_database (alert_id delays_alert)"
    by (rule fourth [THEN conjunct2, THEN conjunct2, THEN conjunct2, THEN conjunct2,
          THEN conjunct2, THEN conjunct2, THEN conjunct1, rule_format])
       (simp add: fault_at_def active_period_rows_def delays_alert_def)
  note raised = at_insert [THEN conjunct1]
  note periods = at_insert [THEN conjunct2, THEN conjunct2, THEN conjunct1, unfolded id]
  note entities = at_insert [THEN conjunct2, THEN conjunct2, THEN conjunct2, unfolded id old]
  from l2 l4 raised periods entities show ?thesis by (intro conjI)
qed

text \<open>
  C8 as stated fails. When the insert of the trip updates fails, the two deletes before
  it are committed: the old live rows are gone and no new row is there. When the insert
  of an alert's active periods fails, the alert's old periods are gone and the new ones
  are not there.
\<close>

theorem storage_error_half_replaced:
  "trips_real_time earlier_database = [(''OLD'', None, ''7'')] \<and>
   stop_time_update earlier_database = [(''OLD'', ''701N'', None, Some 50)] \<and>
   batch_trip_updates \<noteq> [] \<and>
   realtime_reconciliation [False, False, True] batch_trip_updates batch_stop_time_updates
     earlier_database
     = (Some DatabaseError, earlier_database\<lparr>trips_real_time := [], stop_time_update := []\<rparr>) \<and>
   stored_alert earlier_database ''alert:1'' = [(''alert:1'', Some ''Signal problems'', None)] \<and>
   stored_periods earlier_database ''alert:1'' = [(None, Some 5)] \<and>
   alert_active_periods delays_alert = [(Some 100, None)] \<and>
   fst (reconcile_alert [False, False, False, True] 0 delays_alert earlier_database)
     = Some DatabaseError \<and>
   stored_periods
     (fst (snd (reconcile_alert [False, False, False, True] 0 delays_alert earlier_database)))
     ''alert:1'' = []"
  by (simp add: realtime_reconciliation_def execute_sql_query_def fault_at_def
      batch_trip_updates_def batch_stop_time_updates_def
      reconcile_alert_def Let_def active_period_rows_def delays_alert_def stored_periods_def
      stored_alert_def earlier_database_def empty_database_def select_alert_id_def
      update_alert_def delete_active_periods_def)

section \<open>The feed decoder\<close>

lemma grows_refl [simp]: "grows acc acc"
  by (cases acc) (simp add: grows_def)



lemma decode_feeds_append:
  "decode_feeds sp ft (fs1 @ fs2) acc =
     (case decode_feeds sp ft fs1 acc of
        (Some e, acc') \<Rightarrow> (Some e, acc')
      | (None, acc') \<Rightarrow> decode_feeds sp ft fs2 acc')"
  by (induction fs1 arbitrary: acc) (auto split: prod.splits option.splits)



lemma decode_alert_trips:
  assumes "decode_alert ft eid a acc = (r, acc')"
  shows "grows acc acc' \<and> fst acc' = fst acc"
  using assms
  by (cases acc) (auto simp: decode_alert_def grows_def split: sum.splits)




lemma reached_Nil [simp]: "reached sp [] r ts ts"
  by (simp add: reached_def)

lemma reached_append:
  assumes "reached sp xs r1 a b" and "r1 = None \<Longrightarrow> reached sp ys r b c"
    and "r1 \<noteq> None \<Longrightarrow> c = b \<and> r \<noteq> None"
  shows "reached sp (xs @ ys) r a c"
proof (cases r1)
  case None
  from assms(1) None have b: "b = a @ map (expected_trip_row sp) xs"
    and ok: "\<forall>tu \<in> set xs. \<exists>sd. start_datetime_of sp (trip tu) = Inr sd"
    by (auto simp: reached_def)
  from assms(2) [OF None] obtain pre post where
    "ys = pre @ post" "c = b @ map (expected_trip_row sp) pre"
    "\<forall>tu \<in> set pre. \<exists>sd. start_datetime_of sp (trip tu) = Inr sd" "r = None \<longrightarrow> post = []"
    by (auto simp: reached_def)
  with b ok show ?thesis
    unfolding reached_def
    by (intro exI [of _ "xs @ pre"] exI [of _ post]) auto
next
  case (Some e)
  from assms(1) obtain pre post where
    "xs = pre @ post" "b = a @ map (expected_trip_row sp) pre"
    "\<forall>tu \<in> set pre. \<exists>sd. start_datetime_of sp (trip tu) = Inr sd"
    by (auto simp: reached_def)
  with assms(3) Some show ?thesis
    unfolding reached_def
    by (intro exI [of _ pre] exI [of _ "post @ ys"]) auto
qed

lemma decode_trip_update_exact:
  assumes "decode_trip_update sp ft tu acc = (r, acc')"
  shows "(\<exists>e. start_datetime_of sp (trip tu) = Inl e \<and> r = Some e \<and> acc' = acc) \<or>
         (\<exists>sd. start_datetime_of sp (trip tu) = Inr sd \<and>
               fst acc' = fst acc @ [(trip_id (trip tu), sd, route_id (trip tu))])"
proof (cases acc)
  case (fields ts ss al)
  show ?thesis
  proof (cases "start_datetime_of sp (trip tu)")
    case (Inl e)
    with assms fields show ?thesis by (simp add: decode_trip_update_def)
  next
    case (Inr sd)
    with assms fields show ?thesis
      by (auto simp: decode_trip_update_def split: prod.splits)
  qed
qed

lemma decode_entity_exact:
  assumes "decode_entity sp ft entity acc = (r, acc')"
  shows "(trip_update entity = None \<and> fst acc' = fst acc) \<or>
         (\<exists>tu e. trip_update entity = Some tu \<and> start_datetime_of sp (trip tu) = Inl e \<and>
                 r = Some e \<and> acc' = acc) \<or>
         (\<exists>tu sd. trip_update entity = Some tu \<and> start_datetime_of sp (trip tu) = Inr sd \<and>
                 fst acc' = fst acc @ [(trip_id (trip tu), sd, route_id (trip tu))])"
proof -
  obtain r1 acc1 where one:
    "(case trip_update entity of None \<Rightarrow> (None, acc)
      | Some tu \<Rightarrow> decode_trip_update sp ft tu acc) = (r1, acc1)"
    by (cases "case trip_update entity of None \<Rightarrow> (None, acc)
      | Some tu \<Rightarrow> decode_trip_update sp ft tu acc") auto
  have rest: "(r1 \<noteq> None \<longrightarrow> r = r1 \<and> acc' = acc1) \<and> fst acc' = fst acc1"
  proof (cases r1)
    case (Some e)
    with assms one show ?thesis by (simp add: decode_entity_def)
  next
    case None
    show ?thesis
    proof (cases "alert entity")
      case no: None
      with None assms one show ?thesis by (simp add: decode_entity_def)
    next
      case (Some a)
      with None assms one have "decode_alert ft (entity_id entity) a acc1 = (r, acc')"
        by (simp add: decode_entity_def)
      from decode_alert_trips [OF this] None show ?thesis by simp
    qed
  qed
  show ?thesis
  proof (cases "trip_update entity")
    case None
    with one rest show ?thesis by auto
  next
    case (Some tu)
    with one have "decode_trip_update sp ft tu acc = (r1, acc1)" by simp
    from decode_trip_update_exact [OF this] Some rest show ?thesis by auto
  qed
qed

lemma decode_entity_reached:
  assumes "decode_entity sp ft entity acc = (r, acc')"
  shows "reached sp (entity_trip_updates entity) r (fst acc) (fst acc')"
  using decode_entity_exact [OF assms]
proof (elim disjE exE conjE)
  assume "trip_update entity = None" "fst acc' = fst acc"
  then show ?thesis by (simp add: entity_trip_updates_def)
next
  fix tu e
  assume "trip_update entity = Some tu" "r = Some e" "acc' = acc"
  then show ?thesis
    unfolding reached_def entity_trip_updates_def
    by (intro exI [of _ "[]"] exI [of _ "[tu]"]) simp
next
  fix tu sd
  assume "trip_update entity = Some tu" "start_datetime_of sp (trip tu) = Inr sd"
    "fst acc' = fst acc @ [(trip_id (trip tu), sd, route_id (trip tu))]"
  then show ?thesis
    unfolding reached_def entity_trip_updates_def
    by (intro exI [of _ "[tu]"] exI [of _ "[]"]) (simp add: expected_trip_row_def)
qed

lemma decode_entities_reached:
  "decode_entities sp ft es acc = (r, acc') \<Longrightarrow>
     reached sp (concat (map entity_trip_updates es)) r (fst acc) (fst acc')"
proof (induction es arbitrary: acc)
  case Nil
  then show ?case by simp
next
  case (Cons entity es)
  obtain r1 acc1 where one: "decode_entity sp ft entity acc = (r1, acc1)"
    by (cases "decode_entity sp ft entity acc") auto
  have "reached sp (entity_trip_updates entity @ concat (map entity_trip_updates es)) r
          (fst acc) (fst acc')"
  proof (rule reached_append [OF decode_entity_reached [OF one]])
    assume "r1 = None"
    with Cons.prems one have "decode_entities sp ft es acc1 = (r, acc')" by simp
    then show "reached sp (concat (map entity_trip_updates es)) r (fst acc1) (fst acc')"
      by (rule Cons.IH)
  next
    assume "r1 \<noteq> None"
    with Cons.prems one show "fst acc' = fst acc1 \<and> r \<noteq> None" by auto
  qed
  then show ?case by simp
qed

lemma decode_feeds_reached:
  "decode_feeds sp ft fs acc = (r, acc') \<Longrightarrow>
     reached sp (feed_trip_updates fs) r (fst acc) (fst acc')"
proof (induction fs arbitrary: acc)
  case Nil
  then show ?case by (simp add: feed_trip_updates_def)
next
  case (Cons f fs)
  show ?case
  proof (cases f)
    case None
    with Cons.prems have "r = Some AttributeError" "acc' = acc" by simp_all
    then show ?thesis
      unfolding reached_def
      by (intro exI [of _ "[]"] exI [of _ "feed_trip_updates (f # fs)"]) simp
  next
    case (Some es)
    obtain r1 acc1 where one: "decode_entities sp ft es acc = (r1, acc1)"
      by (cases "decode_entities sp ft es acc") auto
    have "reached sp (concat (map entity_trip_updates es) @ feed_trip_updates fs) r
            (fst acc) (fst acc')"
    proof (rule reached_append [OF decode_entities_reached [OF one]])
      assume "r1 = None"
      with Cons.prems one Some have "decode_feeds sp ft fs acc1 = (r, acc')" by simp
      then show "reached sp (feed_trip_updates fs) r (fst acc1) (fst acc')"
        by (rule Cons.IH)
    next
      assume "r1 \<noteq> None"
      with Cons.prems one Some show "fst acc' = fst acc1 \<and> r \<noteq> None" by auto
    qed
    with Some show ?thesis by (simp add: feed_trip_updates_def)
  qed
qed

lemma start_matches_expected:
  assumes "start_datetime_of sp (trip tu) = Inr sd"
  shows "start_matches sp (expected_trip_row sp tu) tu"
  using assms
  by (auto simp: start_matches_def expected_trip_row_def start_datetime_of_def
      split: if_splits sum.splits)

lemma list_all2_expected:
  "\<forall>tu \<in> set pre. \<exists>sd. start_datetime_of sp (trip tu) = Inr sd \<Longrightarrow>
     list_all2 (start_matches sp) (map (expected_trip_row sp) pre) pre"
  by (induction pre) (auto intro: start_matches_expected)


lemma start_datetime_of_cases:
  "(start_time td = [] \<or> start_date td = [] \<longrightarrow> start_datetime_of sp td = Inr None) \<and>
   (start_time td \<noteq> [] \<and> start_date td \<noteq> [] \<longrightarrow>
      start_datetime_of sp td =
        (case sp (start_date td @ '' '' @ start_time td) of
           Inl e \<Rightarrow> Inl e | Inr d \<Rightarrow> Inr (Some d)))"
  by (auto simp: start_datetime_of_def)

lemma decode_entity_trip_row:
  assumes "trip_update entity = Some tu"
  shows "(\<forall>sd. start_datetime_of sp (trip tu) = Inr sd \<longrightarrow>
            fst (snd (decode_entity sp ft entity acc))
              = fst acc @ [(trip_id (trip tu), sd, route_id (trip tu))]) \<and>
         (\<forall>e. start_datetime_of sp (trip tu) = Inl e \<longrightarrow>
            decode_entity sp ft entity acc = (Some e, acc))"
proof -
  obtain r acc' where run: "decode_entity sp ft entity acc = (r, acc')"
    by (cases "decode_entity sp ft entity acc") auto
  from decode_entity_exact [OF run] assms show ?thesis
    unfolding run by auto
qed


lemma decode_feeds_raised_append:
  "decode_feeds sp ft fs acc = (Some e, out) \<Longrightarrow>
     decode_feeds sp ft (fs @ extra) acc = (Some e, out)"
  by (simp add: decode_feeds_append)

lemma decode_feeds_single:
  "decode_feeds sp ft [Some es] acc = decode_entities sp ft es acc"
  by (cases "decode_entities sp ft es acc") (auto split: option.splits)



lemmas decoder_defs =
  process_gtfs_feed_data_def process_gtfs_feed_data_logged_def decode_entity_def
  decode_trip_update_def decode_alert_def start_datetime_of_def optional_time_def
  example_strptime_def example_fromtimestamp_def
  morning_trip_def unscheduled_trip_def late_night_trip_def





text \<open>
  C5. For an entity with a trip update, whatever was decoded before: when the start date
  or the start time is absent (a field that is absent reads as the empty string, and the
  code tests the two strings), the entity's trip row is appended with a null start
  timestamp; when both are there and \<open>strptime\<close> accepts the date, a blank and the
  time, the row is appended with exactly that timestamp; when both are there and
  \<open>strptime\<close> raises, the entity is not decoded: no row is appended and the exception
  ends the decoding. For the whole decoder: the trip rows returned are, one by one and in
  order, the rows of the first trip updates of the input, each with the ids of its own
  trip update and a start timestamp that is not null exactly when its date and time are
  both there, and then \<open>strptime\<close>'s value; when no exception was logged every trip
  update of the input has its row.
\<close>

theorem start_datetime_iff_date_and_time:
  "(\<forall>entity tu acc. trip_update entity = Some tu \<longrightarrow>
      (start_time (trip tu) = [] \<or> start_date (trip tu) = [] \<longrightarrow>
         fst (snd (decode_entity sp ft entity acc))
           = fst acc @ [(trip_id (trip tu), None, route_id (trip tu))]) \<and>
      (\<forall>d. start_time (trip tu) \<noteq> [] \<and> start_date (trip tu) \<noteq> [] \<and>
            sp (start_date (trip tu) @ '' '' @ start_time (trip tu)) = Inr d \<longrightarrow>
         fst (snd (decode_entity sp ft entity acc))
           = fst acc @ [(trip_id (trip tu), Some d, route_id (trip tu))]) \<and>
      (\<forall>e. start_time (trip tu) \<noteq> [] \<and> start_date (trip tu) \<noteq> [] \<and>
            sp (start_date (trip tu) @ '' '' @ start_time (trip tu)) = Inl e \<longrightarrow>
         decode_entity sp ft entity acc = (Some e, acc))) \<and>
   list_all2 (start_matches sp)
     (fst (process_gtfs_feed_data sp ft feed_list))
     (take (length (fst (process_gtfs_feed_data sp ft feed_list)))
        (feed_trip_updates feed_list)) \<and>
   length (fst (process_gtfs_feed_data sp ft feed_list)) \<le> length (feed_trip_updates feed_list) \<and>
   (process_gtfs_feed_data_logged sp ft feed_list = None \<longrightarrow>
      length (fst (process_gtfs_feed_data sp ft feed_list))
        = length (feed_trip_updates feed_list))"
proof -
  have per_entity: "(start_time (trip tu) = [] \<or> start_date (trip tu) = [] \<longrightarrow>
         fst (snd (decode_entity sp ft entity acc))
           = fst acc @ [(trip_id (trip tu), None, route_id (trip tu))]) \<and>
      (\<forall>d. start_time (trip tu) \<noteq> [] \<and> start_date (trip tu) \<noteq> [] \<and>
            sp (start_date (trip tu) @ '' '' @ start_time (trip tu)) = Inr d \<longrightarrow>
         fst (snd (decode_entity sp ft entity acc))
           = fst acc @ [(trip_id (trip tu), Some d, route_id (trip tu))]) \<and>
      (\<forall>e. start_time (trip tu) \<noteq> [] \<and> start_date (trip tu) \<noteq> [] \<and>
            sp (start_date (trip tu) @ '' '' @ start_time (trip tu)) = Inl e \<longrightarrow>
         decode_entity sp ft entity acc = (Some e, acc))"
    if "trip_update entity = Some tu" for entity tu acc
    using decode_entity_trip_row [OF that, of sp ft acc]
      start_datetime_of_cases [of "trip tu" sp]
    by (auto split: sum.splits)
  obtain r out where run: "decode_feeds sp ft feed_list ([], [], []) = (r, out)"
    by (cases "decode_feeds sp ft feed_list ([], [], [])") auto
  from decode_feeds_reached [OF run] obtain pre post where
    split: "feed_trip_updates feed_list = pre @ post"
    and rows: "fst out = map (expected_trip_row sp) pre"
    and ok: "\<forall>tu \<in> set pre. \<exists>sd. start_datetime_of sp (trip tu) = Inr sd"
    and all: "r = None \<longrightarrow> post = []"
    by (auto simp: reached_def)
  have out: "fst (process_gtfs_feed_data sp ft feed_list) = map (expected_trip_row sp) pre"
    and logged: "process_gtfs_feed_data_logged sp ft feed_list = r"
    using run rows
    by (simp_all add: process_gtfs_feed_data_def process_gtfs_feed_data_logged_def)
  have "list_all2 (start_matches sp) (map (expected_trip_row sp) pre) pre"
    using ok by (rule list_all2_expected)
  then have a: "list_all2 (start_matches sp)
     (fst (process_gtfs_feed_data sp ft feed_list))
     (take (length (fst (process_gtfs_feed_data sp ft feed_list)))
        (feed_trip_updates feed_list))"
    by (simp add: out split)
  have b: "length (fst (process_gtfs_feed_data sp ft feed_list))
             \<le> length (feed_trip_updates feed_list)"
    by (simp add: out split)
  have c: "process_gtfs_feed_data_logged sp ft feed_list = None \<longrightarrow>
      length (fst (process_gtfs_feed_data sp ft feed_list))
        = length (feed_trip_updates feed_list)"
    using all by (simp add: out split logged)
  from per_entity a b c show ?thesis by blast
qed


theorem start_datetime_iff_date_and_time_witness:
  "process_gtfs_feed_data_logged example_strptime example_fromtimestamp
     [Some [morning_trip, unscheduled_trip]] = None \<and>
   length (fst (process_gtfs_feed_data example_strptime example_fromtimestamp
     [Some [morning_trip, unscheduled_trip]]))
     = length (feed_trip_updates [Some [morning_trip, unscheduled_trip]]) \<and>
   fst (process_gtfs_feed_data example_strptime example_fromtimestamp
     [Some [morning_trip, unscheduled_trip]])
     = [(''A1'', Some 1704103200000000, ''1''), (''U2'', None, ''2'')] \<and>
   fst (snd (decode_entity example_strptime example_fromtimestamp unscheduled_trip
     ([], [], []))) = [(''U2'', None, ''2'')] \<and>
   fst (snd (decode_entity example_strptime example_fromtimestamp morning_trip
     ([], [], []))) = [(''A1'', Some 1704103200000000, ''1'')] \<and>
   decode_entity example_strptime example_fromtimestamp late_night_trip ([], [], [])
     = (Some ValueError, ([], [], []))"
proof -
  note start = start_datetime_iff_date_and_time
    [of example_strptime example_fromtimestamp "[Some [morning_trip, unscheduled_trip]]"]
  have h: "process_gtfs_feed_data_logged example_strptime example_fromtimestamp
     [Some [morning_trip, unscheduled_trip]] = None"
    by (simp add: decoder_defs)
  from start [THEN conjunct2, THEN conjunct2, THEN conjunct2, rule_format, OF h]
  have n: "length (fst (process_gtfs_feed_data example_strptime example_fromtimestamp
     [Some [morning_trip, unscheduled_trip]]))
     = length (feed_trip_updates [Some [morning_trip, unscheduled_trip]])" .
  have rows: "fst (process_gtfs_feed_data example_strptime example_fromtimestamp
     [Some [morning_trip, unscheduled_trip]])
     = [(''A1'', Some 1704103200000000, ''1''), (''U2'', None, ''2'')]"
    by (simp add: decoder_defs)
  have u: "trip_update unscheduled_trip = Some
        \<lparr>trip = \<lparr>trip_id = ''U2'', start_time = [], start_date = ''20240101'',
                  route_id = ''2''\<rparr>,
         stop_time_update_list = []\<rparr>"
    by (simp add: unscheduled_trip_def)
  have m: "trip_update morning_trip = Some
        \<lparr>trip = \<lparr>trip_id = ''A1'', start_time = ''10:00:00'', start_date = ''20240101'',
                  route_id = ''1''\<rparr>,
         stop_time_update_list =
           [\<lparr>stop_id = ''127N'', arrival = Some 1704103320, departure = None\<rparr>]\<rparr>"
    by (simp add: morning_trip_def)
  have l: "trip_update late_night_trip = Some
        \<lparr>trip = \<lparr>trip_id = ''N3'', start_time = ''25:10:00'', start_date = ''20240101'',
                  route_id = ''3''\<rparr>,
         stop_time_update_list = []\<rparr>"
    by (simp add: late_night_trip_def)
  note per_entity = start [THEN conjunct1, rule_format]
  from per_entity [OF u, of "([], [], [])", THEN conjunct1]
  have a: "fst (snd (decode_entity example_strptime example_fromtimestamp unscheduled_trip
     ([], [], []))) = [(''U2'', None, ''2'')]"
    by simp
  from per_entity [OF m, of "([], [], [])", THEN conjunct2, THEN conjunct1, rule_format,
      of 1704103200000000]
  have b: "fst (snd (decode_entity example_strptime example_fromtimestamp morning_trip
     ([], [], []))) = [(''A1'', Some 1704103200000000, ''1'')]"
    by (simp add: example_strptime_def)
  from per_entity [OF l, of "([], [], [])", THEN conjunct2, THEN conjunct2, rule_format,
      of ValueError]
  have c: "decode_entity example_strptime example_fromtimestamp late_night_trip ([], [], [])
     = (Some ValueError, ([], [], []))"
    by (simp add: example_strptime_def)
  from h n rows a b c show ?thesis by (intro conjI)
qed

section \<open>The feed fetcher\<close>

text \<open>
  C4 at a concrete network. A feed group that does not answer and one that answers 503
  are left out and the other six feeds are fetched. A feed group that answers 200 with a
  malformed body makes \<open>ParseFromString\<close> raise \<open>DecodeError\<close>, which
  \<open>except RequestException\<close> does not catch: the exception leaves
  \<open>fetch_gtfs_realtime_data\<close> and ends the fetch loop, so no feed is fetched at all.
\<close>

theorem fetch_feed_list_malformed_payload:
  "fetch_feed_list flaky_network example_ParseFromString urls []
     = Inr (replicate 6 [morning_trip]) \<and>
   fetch_gtfs_realtime_data garbled_network example_ParseFromString
     ''https://api-endpoint.mta.info/Dataservice/mtagtfsfeeds/nyct%2Fgtfs-nqrw''
     = Inl DecodeError \<and>
   fetch_feed_list garbled_network example_ParseFromString urls [] = Inl DecodeError"
  by (simp add: urls_def fetch_gtfs_realtime_data_def flaky_network_def garbled_network_def
      example_ParseFromString_def numeral_eq_Suc)

section \<open>The queries of the bot\<close>

text \<open>
  \<open>DISTINCT ON\<close> over rows sorted by \<open>f\<close>, where the distinct columns \<open>g\<close> are a
  leading part \<open>k\<close> of the sort key: the keys of the result increase strictly, every
  row of the result is the least row of its key, and every key has its row.
\<close>

lemma distinct_on_from_props:
  fixes k :: "'r \<Rightarrow> 'k::linorder" and f :: "'r \<Rightarrow> 's::linorder"
  assumes eq: "\<And>x y. g x = g y \<longleftrightarrow> k x = k y"
    and mono: "\<And>x y. f x \<le> f y \<Longrightarrow> k x \<le> k y"
  shows "sorted (map f xs) \<Longrightarrow> \<forall>x \<in> set xs. k p \<le> k x \<Longrightarrow>
     sorted_wrt (<) (map k (distinct_on_from g (g p) xs)) \<and>
     (\<forall>r \<in> set (distinct_on_from g (g p) xs).
         r \<in> set xs \<and> k p < k r \<and> (\<forall>y \<in> set xs. k y = k r \<longrightarrow> f r \<le> f y)) \<and>
     (\<forall>x \<in> set xs. k x \<noteq> k p \<longrightarrow> k x \<in> k ` set (distinct_on_from g (g p) xs))"
proof (induction xs arbitrary: p)
  case Nil
  then show ?case by simp
next
  case (Cons x xs)
  from Cons.prems have sorted_tl: "sorted (map f xs)" and head_f: "\<forall>y \<in> set xs. f x \<le> f y"
    and px: "k p \<le> k x" and pxs: "\<forall>y \<in> set xs. k p \<le> k y"
    by simp_all
  from head_f mono have head_k: "\<forall>y \<in> set xs. k x \<le> k y" by blast
  show ?case
  proof (cases "g x = g p")
    case True
    then have kx: "k x = k p" by (simp add: eq)
    note IH = Cons.IH [OF sorted_tl pxs]
    from True have res: "distinct_on_from g (g p) (x # xs) = distinct_on_from g (g p) xs"
      by simp
    show ?thesis
      unfolding res using IH kx by auto
  next
    case False
    then have "k x \<noteq> k p" by (simp add: eq)
    with px have lt: "k p < k x" by simp
    note IH = Cons.IH [OF sorted_tl head_k]
    from False have res: "distinct_on_from g (g p) (x # xs) = x # distinct_on_from g (g x) xs"
      by simp
    have a: "sorted_wrt (<) (map k (x # distinct_on_from g (g x) xs))"
      using IH by auto
    have b: "\<forall>r \<in> set (x # distinct_on_from g (g x) xs).
         r \<in> set (x # xs) \<and> k p < k r \<and> (\<forall>y \<in> set (x # xs). k y = k r \<longrightarrow> f r \<le> f y)"
    proof
      fix r
      assume "r \<in> set (x # distinct_on_from g (g x) xs)"
      then consider "r = x" | "r \<in> set (distinct_on_from g (g x) xs)" by auto
      then show "r \<in> set (x # xs) \<and> k p < k r \<and>
                 (\<forall>y \<in> set (x # xs). k y = k r \<longrightarrow> f r \<le> f y)"
      proof cases
        case 1
        with lt head_f show ?thesis by auto
      next
        case 2
        with IH have "r \<in> set xs" "k x < k r" "\<forall>y \<in> set xs. k y = k r \<longrightarrow> f r \<le> f y"
          by auto
        with lt show ?thesis by auto
      qed
    qed
    have c: "\<forall>y \<in> set (x # xs). k y \<noteq> k p \<longrightarrow>
               k y \<in> k ` set (x # distinct_on_from g (g x) xs)"
    proof (intro ballI impI)
      fix y
      assume "y \<in> set (x # xs)" "k y \<noteq> k p"
      show "k y \<in> k ` set (x # distinct_on_from g (g x) xs)"
      proof (cases "k y = k x")
        case True
        then show ?thesis by simp
      next
        case False
        with \<open>y \<in> set (x # xs)\<close> have "y \<in> set xs" by auto
        with IH False show ?thesis by auto
      qed
    qed
    show ?thesis unfolding res using a b c by blast
  qed
qed

lemma distinct_on_props:
  fixes k :: "'r \<Rightarrow> 'k::linorder" and f :: "'r \<Rightarrow> 's::linorder"
  assumes eq: "\<And>x y. g x = g y \<longleftrightarrow> k x = k y"
    and mono: "\<And>x y. f x \<le> f y \<Longrightarrow> k x \<le> k y"
    and sorted: "sorted (map f xs)"
  shows "sorted_wrt (<) (map k (distinct_on g xs)) \<and>
     (\<forall>r \<in> set (distinct_on g xs).
         r \<in> set xs \<and> (\<forall>y \<in> set xs. k y = k r \<longrightarrow> f r \<le> f y)) \<and>
     (\<forall>x \<in> set xs. k x \<in> k ` set (distinct_on g xs))"
proof (cases xs)
  case Nil
  then show ?thesis by (simp add: distinct_on_def)
next
  case (Cons x rest)
  with sorted have sorted_tl: "sorted (map f rest)" and head_f: "\<forall>y \<in> set rest. f x \<le> f y"
    by simp_all
  from head_f mono have head_k: "\<forall>y \<in> set rest. k x \<le> k y" by blast
  note P = distinct_on_from_props [of g k f rest x, OF eq mono sorted_tl head_k]
  have res: "distinct_on g (x # rest) = x # distinct_on_from g (g x) rest"
    by (simp add: distinct_on_def)
  have a: "sorted_wrt (<) (map k (x # distinct_on_from g (g x) rest))"
    using P by auto
  have b: "\<forall>r \<in> set (x # distinct_on_from g (g x) rest).
         r \<in> set (x # rest) \<and> (\<forall>y \<in> set (x # rest). k y = k r \<longrightarrow> f r \<le> f y)"
  proof
    fix r
    assume "r \<in> set (x # distinct_on_from g (g x) rest)"
    then consider "r = x" | "r \<in> set (distinct_on_from g (g x) rest)" by auto
    then show "r \<in> set (x # rest) \<and> (\<forall>y \<in> set (x # rest). k y = k r \<longrightarrow> f r \<le> f y)"
    proof cases
      case 1
      with head_f show ?thesis by auto
    next
      case 2
      with P have "r \<in> set rest" "k x < k r" "\<forall>y \<in> set rest. k y = k r \<longrightarrow> f r \<le> f y"
        by auto
      then show ?thesis by auto
    qed
  qed
  have c: "\<forall>y \<in> set (x # rest). k y \<in> k ` set (x # distinct_on_from g (g x) rest)"
  proof
    fix y
    assume y: "y \<in> set (x # rest)"
    show "k y \<in> k ` set (x # distinct_on_from g (g x) rest)"
    proof (cases "k y = k x")
      case True
      then show ?thesis by simp
    next
      case False
      with y have "y \<in> set rest" by auto
      with P False show ?thesis by auto
    qed
  qed
  show ?thesis unfolding Cons res using a b c by blast
qed








lemma user_alert_rows_set:
  "set (user_alert_rows now uid d) =
     {(a, h, de, s, e, alert_status now s e, coalesce r st) | a h de s e ag r st sub ss sr.
        (a, h, de) \<in> set (alerts d) \<and> (a, s, e) \<in> set (active_periods d) \<and>
        (a, ag, r, st) \<in> set (informed_entities d) \<and>
        (sub, uid, ss, sr) \<in> set (subscriptions d) \<and>
        (sql_eq sr r \<or> sql_eq ss st)}"
  unfolding user_alert_rows_def
  apply (rule set_eqI)
  apply (simp add: split_def)
  apply (rule iffI)
   apply (elim bexE conjE)
   apply (simp split: if_splits)
   apply fastforce
  apply (elim exE conjE)
  apply simp
  apply force
  done

lemma user_alert_rows_mem:
  "(a, h, de, s, e, status, entity) \<in> set (user_alert_rows now uid d) \<longleftrightarrow>
     (\<exists>ag r st sub ss sr.
        (a, h, de) \<in> set (alerts d) \<and> (a, s, e) \<in> set (active_periods d) \<and>
        (a, ag, r, st) \<in> set (informed_entities d) \<and>
        (sub, uid, ss, sr) \<in> set (subscriptions d) \<and>
        (sql_eq sr r \<or> sql_eq ss st) \<and>
        status = alert_status now s e \<and> entity = coalesce r st)"
  unfolding user_alert_rows_set by blast

lemma alert_status_cases:
  "(alert_status now s e = ''upcoming'' \<longleftrightarrow> (\<exists>t. s = Some t \<and> now < t)) \<and>
   (alert_status now s e = ''past'' \<longleftrightarrow>
      (\<forall>t. s = Some t \<longrightarrow> t \<le> now) \<and> (\<exists>t. e = Some t \<and> t < now)) \<and>
   (alert_status now s e = ''active'' \<longleftrightarrow>
      (\<forall>t. s = Some t \<longrightarrow> t \<le> now) \<and> (\<forall>t. e = Some t \<longrightarrow> now \<le> t))"
  by (cases s; cases e) (auto simp: alert_status_def sql_gt_def sql_lt_def)

lemma order_user_alerts_set [simp]: "set (order_user_alerts rows) = set rows"
  by (simp add: order_user_alerts_def)

lemma order_user_alerts_length [simp]: "length (order_user_alerts rows) = length rows"
  by (simp add: order_user_alerts_def)

text \<open>
  C7. A storage error is raised to the caller. Otherwise the result is the joined rows,
  reordered, each once; every row stems from an alert, one of its active periods, one of
  its informed entities and a subscription of the user on the entity's route or stop,
  and carries one status, by the first branch of the \<open>CASE\<close> that applies:
  \<open>upcoming\<close> exactly when the start is there and after now; \<open>past\<close> exactly when
  that is not so and the end is there and before now; \<open>active\<close> exactly when neither
  holds, a missing bound counting as not holding. The four periods of the claim are
  classified as it says.
\<close>

theorem user_alerts_classified_by_period:
  "fetch_user_alerts True now db uid = Inl DatabaseError \<and>
   (\<forall>rows. fetch_user_alerts False now db uid = Inr rows \<longrightarrow>
      set rows = set (user_alert_rows now uid db) \<and>
      length rows = length (user_alert_rows now uid db) \<and>
      (\<forall>(a, h, de, s, e, status, entity) \<in> set rows.
          status = alert_status now s e \<and>
          (status = ''upcoming'' \<longleftrightarrow> (\<exists>t. s = Some t \<and> now < t)) \<and>
          (status = ''past'' \<longleftrightarrow>
             (\<forall>t. s = Some t \<longrightarrow> t \<le> now) \<and> (\<exists>t. e = Some t \<and> t < now)) \<and>
          (status = ''active'' \<longleftrightarrow>
             (\<forall>t. s = Some t \<longrightarrow> t \<le> now) \<and> (\<forall>t. e = Some t \<longrightarrow> now \<le> t)) \<and>
          (\<exists>ag r st sub ss sr.
              (a, h, de) \<in> set (alerts db) \<and> (a, s, e) \<in> set (active_periods db) \<and>
              (a, ag, r, st) \<in> set (informed_entities db) \<and>
              (sub, uid, ss, sr) \<in> set (subscriptions db) \<and>
              (sql_eq sr r \<or> sql_eq ss st) \<and> entity = coalesce r st))) \<and>
   alert_status T (Some (T - 10)) (Some (T + 10)) = ''active'' \<and>
   alert_status T (Some (T + 5)) (Some (T + 15)) = ''upcoming'' \<and>
   alert_status T (Some (T - 15)) (Some (T - 5)) = ''past'' \<and>
   alert_status T (Some (T - 10)) None = ''active''"
proof (intro conjI allI impI)
  show "fetch_user_alerts True now db uid = Inl DatabaseError"
    by (simp add: fetch_user_alerts_def execute_sql_query_def)
next
  fix rows
  assume run: "fetch_user_alerts False now db uid = Inr rows"
  then have res: "rows = order_user_alerts (user_alert_rows now uid db)"
    by (simp add: fetch_user_alerts_def execute_sql_query_def)
  show "set rows = set (user_alert_rows now uid db)" by (simp add: res)
  show "length rows = length (user_alert_rows now uid db)" by (simp add: res)
  show "\<forall>(a, h, de, s, e, status, entity) \<in> set rows.
          status = alert_status now s e \<and>
          (status = ''upcoming'' \<longleftrightarrow> (\<exists>t. s = Some t \<and> now < t)) \<and>
          (status = ''past'' \<longleftrightarrow>
             (\<forall>t. s = Some t \<longrightarrow> t \<le> now) \<and> (\<exists>t. e = Some t \<and> t < now)) \<and>
          (status = ''active'' \<longleftrightarrow>
             (\<forall>t. s = Some t \<longrightarrow> t \<le> now) \<and> (\<forall>t. e = Some t \<longrightarrow> now \<le> t)) \<and>
          (\<exists>ag r st sub ss sr.
              (a, h, de) \<in> set (alerts db) \<and> (a, s, e) \<in> set (active_periods db) \<and>
              (a, ag, r, st) \<in> set (informed_entities db) \<and>
              (sub, uid, ss, sr) \<in> set (subscriptions db) \<and>
              (sql_eq sr r \<or> sql_eq ss st) \<and> entity = coalesce r st)"
  proof (intro ballI, clarify)
    fix a h de s e status entity
    assume "(a, h, de, s, e, status, entity) \<in> set rows"
    then have "(a, h, de, s, e, status, entity) \<in> set (user_alert_rows now uid db)"
      by (simp add: res)
    then obtain ag r st sub ss sr where
      src: "(a, h, de) \<in> set (alerts db)" "(a, s, e) \<in> set (active_periods db)"
        "(a, ag, r, st) \<in> set (informed_entities db)"
        "(sub, uid, ss, sr) \<in> set (subscriptions db)"
        "sql_eq sr r \<or> sql_eq ss st" "entity = coalesce r st"
      and status: "status = alert_status now s e"
      unfolding user_alert_rows_mem by blast
    from src have matched: "\<exists>ag r st sub ss sr.
              (a, h, de) \<in> set (alerts db) \<and> (a, s, e) \<in> set (active_periods db) \<and>
              (a, ag, r, st) \<in> set (informed_entities db) \<and>
              (sub, uid, ss, sr) \<in> set (subscriptions db) \<and>
              (sql_eq sr r \<or> sql_eq ss st) \<and> entity = coalesce r st"
      by blast
    show "status = alert_status now s e \<and>
          (status = ''upcoming'' \<longleftrightarrow> (\<exists>t. s = Some t \<and> now < t)) \<and>
          (status = ''past'' \<longleftrightarrow>
             (\<forall>t. s = Some t \<longrightarrow> t \<le> now) \<and> (\<exists>t. e = Some t \<and> t < now)) \<and>
          (status = ''active'' \<longleftrightarrow>
             (\<forall>t. s = Some t \<longrightarrow> t \<le> now) \<and> (\<forall>t. e = Some t \<longrightarrow> now \<le> t)) \<and>
          (\<exists>ag r st sub ss sr.
              (a, h, de) \<in> set (alerts db) \<and> (a, s, e) \<in> set (active_periods db) \<and>
              (a, ag, r, st) \<in> set (informed_entities db) \<and>
              (sub, uid, ss, sr) \<in> set (subscriptions db) \<and>
              (sql_eq sr r \<or> sql_eq ss st) \<and> entity = coalesce r st)"
      unfolding status using alert_status_cases [of now s e] matched
      by (intro conjI) (rule refl, simp_all)
  qed
qed (simp_all add: alert_status_def sql_gt_def sql_lt_def)


theorem user_alerts_classified_by_period_witness:
  "fetch_user_alerts False 15 live_database 1
     = Inr [(''alert:old'', Some ''Planned work'', None, Some 10, Some 20, ''active'',
             Some ''7'')] \<and>
   ''active'' = alert_status 15 (Some 10) (Some 20) \<and>
   length (user_alert_rows 15 1 live_database) = 1"
proof -
  have h: "fetch_user_alerts False 15 live_database 1
     = Inr [(''alert:old'', Some ''Planned work'', None, Some 10, Some 20, ''active'',
             Some ''7'')]"
    by (simp add: fetch_user_alerts_def execute_sql_query_def user_alert_rows_def
        order_user_alerts_def alert_status_def coalesce_def sql_eq_def sql_gt_def sql_lt_def
        live_database_def earlier_database_def empty_database_def)
  note facts = user_alerts_classified_by_period
    [of 15 live_database 1, THEN conjunct2, THEN conjunct1, rule_format, OF h]
  from facts [THEN conjunct2, THEN conjunct1]
  have n: "length (user_alert_rows 15 1 live_database) = 1"
    by simp
  have m: "(''alert:old'', Some ''Planned work'', None, Some 10, Some 20, ''active'', Some ''7'')
    \<in> set [(''alert:old'', Some ''Planned work'', None, Some (10 :: int), Some (20 :: int),
             ''active'', Some ''7'')]"
    by simp
  from bspec [OF facts [THEN conjunct2, THEN conjunct2] m]
  have "''active'' = alert_status 15 (Some 10) (Some 20)"
    by simp
  with n h show ?thesis by (intro conjI)
qed

lemma like_ending_iff: "like_ending s c \<longleftrightarrow> (\<exists>p. s = p @ [c])"
  by (auto simp: like_ending_def) (metis append_butlast_last_id)

lemma prod3_le_prefix:
  fixes a :: "'a::linorder" and b :: "'b::linorder" and c :: "'c::linorder"
  shows "(a, b, c) \<le> (a', b', c') \<Longrightarrow> (a, b) \<le> (a', b')"
  by (auto simp: less_eq_prod_def)

lemma prod3_le_last:
  fixes a :: "'a::linorder" and b :: "'b::linorder" and c :: "'c::linorder"
  shows "(a, b, c) \<le> (a, b, c') \<Longrightarrow> c \<le> c'"
  by (auto simp: less_eq_prod_def)

lemma station_order_eq:
  "station_order r = (fst (station_group r), snd (station_group r), fst r)"
  by (cases r) (simp add: station_order_def station_group_def)

lemma nulls_last_inj: "nulls_last a [] = nulls_last b [] \<longleftrightarrow> a = b"
  by (cases a; cases b) (auto simp: nulls_last_def)

lemma station_group_eq:
  "station_name_address x = station_name_address y \<longleftrightarrow> station_group x = station_group y"
  by (cases x; cases y)
     (simp add: station_name_address_def station_group_def station_order_def nulls_last_inj)

lemma station_group_mono:
  "station_order x \<le> station_order y \<Longrightarrow> station_group x \<le> station_group y"
  unfolding station_order_eq [of x] station_order_eq [of y]
  by (metis prod3_le_prefix prod.collapse)

lemma station_order_same_group:
  "station_group y = station_group r \<Longrightarrow> station_order r \<le> station_order y \<Longrightarrow> fst r \<le> fst y"
  unfolding station_order_eq [of r] station_order_eq [of y]
  by (metis prod3_le_last)


lemma get_station_options_rows:
  assumes "get_station_options False db = Inr rows"
  shows "sorted_wrt (<) (map station_group rows) \<and>
     (\<forall>r \<in> set rows.
         r \<in> set (sort_key station_order (filter is_station_row (stops db))) \<and>
         (\<forall>y \<in> set (sort_key station_order (filter is_station_row (stops db))).
            station_group y = station_group r \<longrightarrow> station_order r \<le> station_order y)) \<and>
     (\<forall>x \<in> set (sort_key station_order (filter is_station_row (stops db))).
         station_group x \<in> station_group ` set rows)"
proof -
  from assms have res: "rows = distinct_on station_name_address
      (sort_key station_order (filter is_station_row (stops db)))"
    by (simp add: get_station_options_def execute_sql_query_def)
  show ?thesis
    unfolding res
    by (rule distinct_on_props [where f = station_order and k = station_group
          and g = station_name_address])
       (simp_all add: station_group_eq station_group_mono)
qed

text \<open>
  C10. A storage error is raised to the caller. Otherwise no two rows have the same
  stop name and address; every row is a row of \<open>stops\<close> as it is (stop id, name,
  address, trains) whose stop id ends with neither \<open>N\<close> nor \<open>S\<close>; and every such
  row of \<open>stops\<close> is represented by the row of its name and address, which has the
  smallest stop id among them.
\<close>

theorem station_options_have_no_platforms:
  "get_station_options True db = Inl DatabaseError \<and>
   (\<forall>rows. get_station_options False db = Inr rows \<longrightarrow>
      distinct (map station_name_address rows) \<and>
      (\<forall>(s, name, address, trains) \<in> set rows.
          (s, name, address, trains) \<in> set (stops db) \<and>
          (\<forall>p. s \<noteq> p @ ''N'') \<and> (\<forall>p. s \<noteq> p @ ''S'') \<and>
          station_name_address (s, name, address, trains) = (name, address)) \<and>
      (\<forall>(s, name, address, trains) \<in> set (stops db).
          (\<forall>p. s \<noteq> p @ ''N'') \<and> (\<forall>p. s \<noteq> p @ ''S'') \<longrightarrow>
          (\<exists>s' trains'. (s', name, address, trains') \<in> set rows \<and> s' \<le> s)))"
proof (intro conjI allI impI)
  show "get_station_options True db = Inl DatabaseError"
    by (simp add: get_station_options_def execute_sql_query_def)
next
  fix rows
  assume run: "get_station_options False db = Inr rows"
  note P = get_station_options_rows [OF run]
  from P have "distinct (map station_group rows)"
    by (simp add: strict_sorted_iff)
  moreover have "inj_on station_name_address (set rows) \<longleftrightarrow> inj_on station_group (set rows)"
    unfolding inj_on_def by (simp add: station_group_eq)
  ultimately show "distinct (map station_name_address rows)"
    by (simp add: distinct_map)
  show "\<forall>(s, name, address, trains) \<in> set rows.
          (s, name, address, trains) \<in> set (stops db) \<and>
          (\<forall>p. s \<noteq> p @ ''N'') \<and> (\<forall>p. s \<noteq> p @ ''S'') \<and>
          station_name_address (s, name, address, trains) = (name, address)"
  proof (intro ballI, clarify)
    fix s name address trains
    assume "(s, name, address, trains) \<in> set rows"
    with P have "(s, name, address, trains) \<in> set (stops db)"
      "is_station_row (s, name, address, trains)"
      by auto
    then show "(s, name, address, trains) \<in> set (stops db) \<and>
          (\<forall>p. s \<noteq> p @ ''N'') \<and> (\<forall>p. s \<noteq> p @ ''S'') \<and>
          station_name_address (s, name, address, trains) = (name, address)"
      by (auto simp: is_station_row_def like_ending_iff station_name_address_def)
  qed
  show "\<forall>(s, name, address, trains) \<in> set (stops db).
          (\<forall>p. s \<noteq> p @ ''N'') \<and> (\<forall>p. s \<noteq> p @ ''S'') \<longrightarrow>
          (\<exists>s' trains'. (s', name, address, trains') \<in> set rows \<and> s' \<le> s)"
  proof (intro ballI, clarify)
    fix s :: string and name address trains :: "string option"
    let ?y = "(s, name, address, trains)"
    assume y: "?y \<in> set (stops db)" and n: "\<forall>p. s \<noteq> p @ ''N''" and so: "\<forall>p. s \<noteq> p @ ''S''"
    then have "is_station_row ?y"
      by (auto simp: is_station_row_def like_ending_iff)
    with y have mem: "?y \<in> set (sort_key station_order (filter is_station_row (stops db)))"
      by simp
    with P have "station_group ?y \<in> station_group ` set rows" by blast
    then obtain r where r: "r \<in> set rows" and g: "station_group ?y = station_group r"
      by blast
    from P r mem g have "station_order r \<le> station_order ?y" by blast
    with g have le: "fst r \<le> s"
      using station_order_same_group [of ?y r] by simp
    from g have "station_name_address r = (name, address)"
      using station_group_eq [of r ?y] by (simp add: station_name_address_def)
    then obtain s' trains' where "r = (s', name, address, trains')"
      by (cases r) (simp add: station_name_address_def)
    with r le show "\<exists>s' trains'. (s', name, address, trains') \<in> set rows \<and> s' \<le> s"
      by auto
  qed
qed


theorem station_options_have_no_platforms_witness:
  "get_station_options False live_database
     = Inr [(''127'', Some ''Times Sq-42 St'', Some ''Manhattan, 10036'', Some ''1, 2, 3'')] \<and>
   distinct (map station_name_address
     [(''127'', Some ''Times Sq-42 St'', Some ''Manhattan, 10036'', Some ''1, 2, 3'')]) \<and>
   (''127'', Some ''Times Sq-42 St'', Some ''Manhattan, 10036'', Some ''1, 2, 3'')
     \<in> set (stops live_database) \<and>
   (''127N'', Some ''Times Sq-42 St'', Some ''Manhattan, 10036'', Some ''1, 2, 3'')
     \<in> set (stops live_database)"
proof -
  have h: "get_station_options False live_database
     = Inr [(''127'', Some ''Times Sq-42 St'', Some ''Manhattan, 10036'', Some ''1, 2, 3'')]"
    by (simp add: get_station_options_def execute_sql_query_def is_station_row_def
        like_ending_def station_order_def station_name_address_def distinct_on_def
        live_database_def earlier_database_def empty_database_def)
  note facts = station_options_have_no_platforms
    [of live_database, THEN conjunct2, rule_format, OF h]
  note one_per_name_address = facts [THEN conjunct1]
  have m: "(''127'', Some ''Times Sq-42 St'', Some ''Manhattan, 10036'', Some ''1, 2, 3'')
    \<in> set [(''127'', Some ''Times Sq-42 St'', Some ''Manhattan, 10036'', Some ''1, 2, 3'')]"
    by simp
  from bspec [OF facts [THEN conjunct2, THEN conjunct1] m]
  have station: "(''127'', Some ''Times Sq-42 St'', Some ''Manhattan, 10036'', Some ''1, 2, 3'')
     \<in> set (stops live_database)"
    by simp
  have platform:
    "(''127N'', Some ''Times Sq-42 St'', Some ''Manhattan, 10036'', Some ''1, 2, 3'')
       \<in> set (stops live_database)"
    by (simp add: live_database_def earlier_database_def empty_database_def)
  from h one_per_name_address station platform show ?thesis by (intro conjI)
qed

section \<open>The subscription operations of the bot\<close>

lemmas bot_defs =
  handle_station_subscription_def handle_route_subscription_def get_or_create_user_id_def
  select_user_id_def insert_user_def insert_subscription_def execute_sql_query_def
  fault_at_def sql_eq_def STATION_MAP_REVERSE_def ROUTE_MAP_REVERSE_def py_str_def
  earlier_database_def empty_database_def Let_def

text \<open>
  C9 at concrete inputs. A station name or route name that is in the lookup table gives
  a subscription with exactly one target. A name that is not in the table (the slash
  command takes any text) is looked up as \<open>None\<close>; the duplicate check finds nothing,
  the row is inserted with both targets null, and the user is told the subscription
  succeeded.
\<close>

theorem subscription_without_target:
  "get_station_options False earlier_database
     = Inr [(''127'', Some ''Times Sq-42 St'', Some ''Manhattan, 10036'', Some ''1, 2, 3'')] \<and>
   subscriptions (snd (handle_station_subscription []
      (STATION_MAP_REVERSE
         [(''127'', Some ''Times Sq-42 St'', Some ''Manhattan, 10036'', Some ''1, 2, 3'')])
      ''alice'' ''Times Sq-42 St, Manhattan, 10036 (1, 2, 3)'' earlier_database))
     = [(1, 1, Some ''127'', None)] \<and>
   subscriptions (snd (handle_route_subscription []
      (ROUTE_MAP_REVERSE [(''A'', Some ''A'', Some ''8 Avenue Express'')])
      ''alice'' ''A (8 Avenue Express)'' earlier_database)) = [(1, 1, None, Some ''A'')] \<and>
   handle_station_subscription []
      (STATION_MAP_REVERSE
         [(''127'', Some ''Times Sq-42 St'', Some ''Manhattan, 10036'', Some ''1, 2, 3'')])
      ''alice'' ''Atlantis'' earlier_database
     = (Inr (Successfully_subscribed ''Atlantis''),
        earlier_database
          \<lparr>users := [(1, ''alice'')], subscriptions := [(1, 1, None, None)],
           users_user_id_seq := 2, subscriptions_subscription_id_seq := 2\<rparr>) \<and>
   handle_route_subscription []
      (ROUTE_MAP_REVERSE [(''A'', Some ''A'', Some ''8 Avenue Express'')])
      ''alice'' ''Z'' earlier_database
     = (Inr (Successfully_subscribed ''Z''),
        earlier_database
          \<lparr>users := [(1, ''alice'')], subscriptions := [(1, 1, None, None)],
           users_user_id_seq := 2, subscriptions_subscription_id_seq := 2\<rparr>)"
  by (simp add: bot_defs get_station_options_def is_station_row_def like_ending_def
      station_order_def station_name_address_def distinct_on_def)

end
